theory Spec2Isabelle
  imports Main "HOL-Library.Word"
begin

unbundle bit_operations_syntax

section \<open>Data model of \<^verbatim>\<open>osmem.c\<close>\<close>

text \<open>
  \<^verbatim>\<open>size_t\<close> is a 64-bit word, so every size computation wraps as in C. Addresses are
  natural numbers; the null pointer is address 0 and \<^verbatim>\<open>(void *) -1\<close> is the largest
  64-bit address.
\<close>

type_synonym size_t = "64 word"
type_synonym addr = nat

definition ALIGNMENT :: size_t where
  "ALIGNMENT = 8"

definition ALIGN :: "size_t \<Rightarrow> size_t" where
  "ALIGN sz = (sz + (ALIGNMENT - 1)) AND NOT (ALIGNMENT - 1)"

definition PREALLOC_SIZE :: size_t where
  "PREALLOC_SIZE = 128 * 1024"

definition ALLOCATION_FAILED :: addr where
  "ALLOCATION_FAILED = 2 ^ 64 - 1"

datatype status_t = STATUS_FREE | STATUS_ALLOC | STATUS_MAPPED

text \<open>
  \<^verbatim>\<open>struct block_meta\<close>: the fields the code reads and writes. The declaration of the
  struct lives in a header that is not part of the sources, so its byte size
  \<^verbatim>\<open>BLOCK_META_SIZE = sizeof(struct block_meta)\<close> is the parameter \<open>hs\<close> of every
  function below.
\<close>

record block_meta =
  blk_size :: size_t
  blk_status :: status_t
  blk_next :: addr

text \<open>
  Headers live in band, in the same memory as the payloads. A memory cell is one byte:
  either a data byte, or the \<open>k\<close>-th byte of the representation of a header.
\<close>

datatype cell = Byte "8 word" | HdrByte block_meta nat

type_synonym memory = "addr \<Rightarrow> cell"

datatype os_call = Sbrk size_t | Mmap size_t | Munmap addr size_t

text \<open>
  The allocator's globals (\<^verbatim>\<open>head\<close>, \<^verbatim>\<open>heap_preallocated\<close>, \<^verbatim>\<open>MAP_THRESHOLD\<close>), the
  memory, and the part of the operating system the code talks to: the program break
  with its limit, the next address handed out for a mapping with its limit, the page
  size, and the log of the calls made.
\<close>

record allocator =
  head :: addr
  heap_preallocated :: int
  MAP_THRESHOLD :: size_t
  mem :: memory
  brk :: addr
  brk_max :: addr
  map_next :: addr
  map_max :: addr
  page_size :: nat
  os_log :: "os_call list"

datatype error = DIE string | Fault addr

text \<open>
  A call either does not return (\<open>None\<close>: a list walk that never ends), or ends the
  process (\<open>Inl\<close>: \<^verbatim>\<open>DIE\<close>, or an access through an address that holds no header or
  to memory the process does not have), or returns a value. The memory is typed: where
  the bytes at an address are not the bytes of one stored header (data bytes, or parts
  of other headers), a read of a header field is \<open>Fault\<close> at that address, and the model
  does not say which value the C code would compute from those bytes.
\<close>

type_synonym 'a result = "(error + 'a) option"

definition ok :: "'a \<Rightarrow> 'a result" where
  "ok x = Some (Inr x)"

definition die :: "string \<Rightarrow> 'a result" where
  "die msg = Some (Inl (DIE msg))"

definition and_then :: "'a result \<Rightarrow> ('a \<Rightarrow> 'b result) \<Rightarrow> 'b result" where
  "and_then r f = (case r of None \<Rightarrow> None | Some (Inl e) \<Rightarrow> Some (Inl e) | Some (Inr x) \<Rightarrow> f x)"

subsection \<open>Memory\<close>

function hdr_cells :: "memory \<Rightarrow> addr \<Rightarrow> block_meta \<Rightarrow> nat \<Rightarrow> nat \<Rightarrow> bool" where
  "hdr_cells m a h k n =
     (if k < n then m (a + k) = HdrByte h k \<and> hdr_cells m a h (k + 1) n else True)"
  by pat_completeness auto
termination
  by (relation "measure (\<lambda>(m, a, h, k, n). n - k)") auto

declare hdr_cells.simps [simp del]

definition hdr_at :: "size_t \<Rightarrow> memory \<Rightarrow> addr \<Rightarrow> block_meta option" where
  "hdr_at hs m a =
     (case m a of
        Byte b \<Rightarrow> None
      | HdrByte h i \<Rightarrow>
          if a \<noteq> 0 \<and> a \<noteq> ALLOCATION_FAILED \<and> hdr_cells m a h 0 (unat hs) then Some h
          else None)"

definition store_hdr :: "size_t \<Rightarrow> memory \<Rightarrow> addr \<Rightarrow> block_meta \<Rightarrow> memory" where
  "store_hdr hs m a h = (\<lambda>x. if a \<le> x \<and> x < a + unat hs then HdrByte h (x - a) else m x)"

definition memset :: "memory \<Rightarrow> addr \<Rightarrow> 8 word \<Rightarrow> size_t \<Rightarrow> memory" where
  "memset m p c n = (\<lambda>x. if p \<le> x \<and> x < p + unat n then Byte c else m x)"

definition memmove :: "memory \<Rightarrow> addr \<Rightarrow> addr \<Rightarrow> size_t \<Rightarrow> memory" where
  "memmove m dst src n = (\<lambda>x. if dst \<le> x \<and> x < dst + unat n then m (src + (x - dst)) else m x)"

definition rd :: "size_t \<Rightarrow> allocator \<Rightarrow> addr \<Rightarrow> block_meta result" where
  "rd hs s a = (case hdr_at hs (mem s) a of None \<Rightarrow> Some (Inl (Fault a)) | Some h \<Rightarrow> ok h)"

definition wr :: "size_t \<Rightarrow> allocator \<Rightarrow> addr \<Rightarrow> block_meta \<Rightarrow> allocator result" where
  "wr hs s a h =
     (if a = 0 \<or> a = ALLOCATION_FAILED then Some (Inl (Fault a))
      else ok (s\<lparr>mem := store_hdr hs (mem s) a h\<rparr>))"

definition set_size :: "size_t \<Rightarrow> allocator \<Rightarrow> addr \<Rightarrow> size_t \<Rightarrow> allocator result" where
  "set_size hs s a v = and_then (rd hs s a) (\<lambda>h. wr hs s a (h\<lparr>blk_size := v\<rparr>))"

definition set_next :: "size_t \<Rightarrow> allocator \<Rightarrow> addr \<Rightarrow> addr \<Rightarrow> allocator result" where
  "set_next hs s a v = and_then (rd hs s a) (\<lambda>h. wr hs s a (h\<lparr>blk_next := v\<rparr>))"

definition set_status :: "size_t \<Rightarrow> allocator \<Rightarrow> addr \<Rightarrow> status_t \<Rightarrow> allocator result" where
  "set_status hs s a v = and_then (rd hs s a) (\<lambda>h. wr hs s a (h\<lparr>blk_status := v\<rparr>))"

subsection \<open>Operating system\<close>

definition os_sbrk :: "allocator \<Rightarrow> size_t \<Rightarrow> addr \<times> allocator" where
  "os_sbrk s delta =
     (if brk s + unat delta \<le> brk_max s
      then (brk s, s\<lparr>brk := brk s + unat delta, os_log := os_log s @ [Sbrk delta]\<rparr>)
      else (ALLOCATION_FAILED, s\<lparr>os_log := os_log s @ [Sbrk delta]\<rparr>))"

definition round_pages :: "nat \<Rightarrow> nat \<Rightarrow> nat" where
  "round_pages ps n = ((n + ps - 1) div ps) * ps"

definition os_mmap :: "allocator \<Rightarrow> size_t \<Rightarrow> addr \<times> allocator" where
  "os_mmap s len =
     (if len \<noteq> 0 \<and> map_next s + round_pages (page_size s) (unat len) \<le> map_max s
      then (map_next s,
            s\<lparr>map_next := map_next s + round_pages (page_size s) (unat len),
              os_log := os_log s @ [Mmap len]\<rparr>)
      else (ALLOCATION_FAILED, s\<lparr>os_log := os_log s @ [Mmap len]\<rparr>))"

definition os_munmap :: "allocator \<Rightarrow> addr \<Rightarrow> size_t \<Rightarrow> int \<times> allocator" where
  "os_munmap s a len =
     (if len \<noteq> 0 then (0, s\<lparr>os_log := os_log s @ [Munmap a len]\<rparr>)
      else (- 1, s\<lparr>os_log := os_log s @ [Munmap a len]\<rparr>))"

definition getpagesize :: "allocator \<Rightarrow> size_t" where
  "getpagesize s = of_nat (page_size s)"

text \<open>
  The memory the process may write: the bytes below the program break, and the bytes of
  the mapping area below the next address handed out for a mapping. \<^verbatim>\<open>memset\<close> over a
  range that leaves this memory ends the process.
\<close>

definition accessible :: "allocator \<Rightarrow> addr \<Rightarrow> nat \<Rightarrow> bool" where
  "accessible s p n = (p + n \<le> brk s \<or> (brk_max s \<le> p \<and> p + n \<le> map_next s))"

section \<open>List primitives\<close>

text \<open>
  The loop \<^verbatim>\<open>while (current) { prev = current; current = current->next; }\<close> of
  \<^verbatim>\<open>add_memory_block\<close> and \<^verbatim>\<open>find_last_free_block\<close>: returns \<^verbatim>\<open>prev\<close>.
\<close>

partial_function (option) walk_to_end :: "size_t \<Rightarrow> allocator \<Rightarrow> addr \<Rightarrow> addr \<Rightarrow> addr result" where
  "walk_to_end hs s current prev =
     (if current = 0 then Some (Inr prev)
      else case hdr_at hs (mem s) current of
             None \<Rightarrow> Some (Inl (Fault current))
           | Some c \<Rightarrow> walk_to_end hs s (blk_next c) current)"

definition append_block :: "size_t \<Rightarrow> allocator \<Rightarrow> addr \<Rightarrow> string \<Rightarrow> allocator result" where
  "append_block hs s block msg =
     (if head s = 0 then ok (s\<lparr>head := block\<rparr>)
      else and_then (walk_to_end hs s (head s) 0) (\<lambda>prev.
             if prev = 0 then die msg
             else set_next hs s prev block))"

definition add_memory_block :: "size_t \<Rightarrow> allocator \<Rightarrow> addr \<Rightarrow> allocator result" where
  "add_memory_block hs s block =
     and_then (rd hs s block) (\<lambda>b.
       if blk_status b = STATUS_MAPPED then
         (if head s = 0 then ok (s\<lparr>head := block\<rparr>)
          else and_then (set_next hs s block (head s)) (\<lambda>s1. ok (s1\<lparr>head := block\<rparr>)))
       else if blk_status b = STATUS_ALLOC then
         append_block hs s block ''Error adding heap block(STATUS_ALLOC) in:add_memory_block''
       else if blk_status b = STATUS_FREE \<and> heap_preallocated s = 0 then
         append_block hs s block ''Error adding heap block(STATUS_FREE) in:add_memory_block''
       else die ''Error trying to add mmap block in:add_memory_block'')"

text \<open>
  The two pointer conversions. Addresses are natural numbers: for a pointer below the
  header size \<^verbatim>\<open>get_block_ptr\<close> gives 0, where the pointer arithmetic of C wraps around to
  an address at the top of the address space; neither is the address of a block.
\<close>

definition get_block_ptr :: "size_t \<Rightarrow> addr \<Rightarrow> addr" where
  "get_block_ptr hs ptr = ptr - unat hs"

definition get_ptr_block :: "size_t \<Rightarrow> addr \<Rightarrow> addr" where
  "get_ptr_block hs block = block + unat hs"

partial_function (option) remove_loop ::
  "size_t \<Rightarrow> allocator \<Rightarrow> addr \<Rightarrow> addr \<Rightarrow> addr \<Rightarrow> allocator result" where
  "remove_loop hs s block current prev =
     (if current = 0 then Some (Inr s)
      else if current = block then
        and_then
          (if current = head s
           then and_then (rd hs s (head s)) (\<lambda>h. ok (s\<lparr>head := blk_next h\<rparr>))
           else and_then (rd hs s block) (\<lambda>b. set_next hs s prev (blk_next b)))
          (\<lambda>s1. set_next hs s1 block 0)
      else case hdr_at hs (mem s) current of
             None \<Rightarrow> Some (Inl (Fault current))
           | Some c \<Rightarrow> remove_loop hs s block (blk_next c) current)"

definition remove_memory_block :: "size_t \<Rightarrow> allocator \<Rightarrow> addr \<Rightarrow> allocator result" where
  "remove_memory_block hs s block = remove_loop hs s block (head s) 0"

partial_function (option) in_memory_loop :: "size_t \<Rightarrow> allocator \<Rightarrow> addr \<Rightarrow> addr \<Rightarrow> int result" where
  "in_memory_loop hs s block current =
     (if current = 0 then Some (Inr 0)
      else if current = block then Some (Inr 1)
      else case hdr_at hs (mem s) current of
             None \<Rightarrow> Some (Inl (Fault current))
           | Some c \<Rightarrow> in_memory_loop hs s block (blk_next c))"

definition is_block_in_memory :: "size_t \<Rightarrow> allocator \<Rightarrow> addr \<Rightarrow> int result" where
  "is_block_in_memory hs s block = in_memory_loop hs s block (head s)"

section \<open>Memory sourcing\<close>

definition request_memory :: "size_t \<Rightarrow> allocator \<Rightarrow> size_t \<Rightarrow> (addr \<times> allocator) result" where
  "request_memory hs s sz =
     (let total_size = ALIGN sz + ALIGN hs;
          (block, s1) = (if total_size < MAP_THRESHOLD s then os_sbrk s total_size
                         else os_mmap s total_size)
      in if block = ALLOCATION_FAILED \<or> block = 0 then ok (0, s1)
         else and_then
                (wr hs s1 block
                   \<lparr>blk_size = ALIGN sz,
                    blk_status = (if total_size < MAP_THRESHOLD s then STATUS_ALLOC
                                  else STATUS_MAPPED),
                    blk_next = 0\<rparr>)
                (\<lambda>s2. ok (block, s2)))"

definition preallocate_heap :: "size_t \<Rightarrow> allocator \<Rightarrow> allocator result" where
  "preallocate_heap hs s =
     (let (heap, s1) = os_sbrk s PREALLOC_SIZE
      in if heap = 0 then die ''Error heap preallocation in:preallocate_heap''
         else and_then
                (wr hs s1 heap
                   \<lparr>blk_size = PREALLOC_SIZE - ALIGN hs, blk_status = STATUS_FREE, blk_next = 0\<rparr>)
                (\<lambda>s2. add_memory_block hs s2 heap))"

section \<open>Coalescing and splitting\<close>

definition coalesce_blocks :: "size_t \<Rightarrow> allocator \<Rightarrow> addr \<Rightarrow> addr \<Rightarrow> allocator result" where
  "coalesce_blocks hs s block1 block2 =
     and_then (rd hs s block1) (\<lambda>b1.
     and_then (rd hs s block2) (\<lambda>b2.
     and_then (set_size hs s block1 (blk_size b1 + (blk_size b2 + ALIGN hs))) (\<lambda>s1.
     and_then (rd hs s1 block2) (\<lambda>b2'.
     and_then (set_next hs s1 block1 (blk_next b2')) (\<lambda>s2.
     set_status hs s2 block1 STATUS_FREE)))))"

text \<open>
  The body of the loop of \<^verbatim>\<open>coalesce_memory\<close>: the merge when both blocks are free, then
  \<^verbatim>\<open>current = current->next\<close>. It returns the state and the new \<^verbatim>\<open>current\<close>.
\<close>

definition coalesce_body :: "size_t \<Rightarrow> allocator \<Rightarrow> addr \<Rightarrow> (allocator \<times> addr) result" where
  "coalesce_body hs s current =
     and_then (rd hs s current) (\<lambda>c.
     and_then
       (if blk_status c = STATUS_FREE
        then and_then (rd hs s (blk_next c)) (\<lambda>n.
               if blk_status n = STATUS_FREE
               then coalesce_blocks hs s current (blk_next c)
               else ok s)
        else ok s)
       (\<lambda>s1. and_then (rd hs s1 current) (\<lambda>c1. ok (s1, blk_next c1))))"

partial_function (option) coalesce_loop :: "size_t \<Rightarrow> allocator \<Rightarrow> addr \<Rightarrow> allocator result" where
  "coalesce_loop hs s current =
     (if current = 0 then Some (Inr s)
      else case hdr_at hs (mem s) current of
             None \<Rightarrow> Some (Inl (Fault current))
           | Some c \<Rightarrow>
               if blk_next c = 0 then Some (Inr s)
               else (case coalesce_body hs s current of
                       None \<Rightarrow> None
                     | Some (Inl e) \<Rightarrow> Some (Inl e)
                     | Some (Inr (s1, current1)) \<Rightarrow> coalesce_loop hs s1 current1))"

definition coalesce_memory :: "size_t \<Rightarrow> allocator \<Rightarrow> allocator result" where
  "coalesce_memory hs s = coalesce_loop hs s (head s)"

definition split_block :: "size_t \<Rightarrow> allocator \<Rightarrow> addr \<Rightarrow> size_t \<Rightarrow> allocator result" where
  "split_block hs s block sz =
     and_then (rd hs s block) (\<lambda>b.
       if blk_size b \<ge> ALIGN sz + ALIGN hs + ALIGNMENT then
         (let new_block = block + unat (ALIGN hs) + unat (ALIGN sz)
          in and_then
               (wr hs s new_block
                  \<lparr>blk_size = blk_size b - ALIGN sz - ALIGN hs,
                   blk_status = STATUS_FREE,
                   blk_next = blk_next b\<rparr>) (\<lambda>s1.
             and_then (set_size hs s1 block (ALIGN sz)) (\<lambda>s2.
             and_then (set_next hs s2 block new_block) (\<lambda>s3.
             set_status hs s3 block STATUS_ALLOC))))
       else set_status hs s block STATUS_ALLOC)"

section \<open>Best fit and the last block\<close>

text \<open>
  The \<^verbatim>\<open>if\<close> in the loop of \<^verbatim>\<open>find_best_free_block\<close>: the value of \<^verbatim>\<open>best\<close> after the
  block \<^verbatim>\<open>current\<close> has been looked at.
\<close>

definition best_body :: "size_t \<Rightarrow> allocator \<Rightarrow> size_t \<Rightarrow> addr \<Rightarrow> addr \<Rightarrow> addr result" where
  "best_body hs s sz current best =
     and_then (rd hs s current) (\<lambda>c.
       if blk_status c = STATUS_FREE \<and> blk_size c \<ge> sz then
         (if best = 0 then ok current
          else and_then (rd hs s best) (\<lambda>b.
                 if blk_size b > blk_size c then ok current else ok best))
       else ok best)"

partial_function (option) best_loop ::
  "size_t \<Rightarrow> allocator \<Rightarrow> size_t \<Rightarrow> addr \<Rightarrow> addr \<Rightarrow> addr \<Rightarrow> (addr \<times> addr) result" where
  "best_loop hs s sz current best lst =
     (if current = 0 then Some (Inr (best, lst))
      else case best_body hs s sz current best of
             None \<Rightarrow> None
           | Some (Inl e) \<Rightarrow> Some (Inl e)
           | Some (Inr best1) \<Rightarrow>
               (case hdr_at hs (mem s) current of
                  None \<Rightarrow> Some (Inl (Fault current))
                | Some c \<Rightarrow> best_loop hs s sz (blk_next c) best1 current))"

definition find_best_free_block ::
  "size_t \<Rightarrow> allocator \<Rightarrow> addr \<Rightarrow> size_t \<Rightarrow> (addr \<times> addr \<times> allocator) result" where
  "find_best_free_block hs s lst sz =
     (let current = head s
      in and_then (coalesce_memory hs s) (\<lambda>s1.
         and_then (best_loop hs s1 sz current 0 lst) (\<lambda>(best, lst1).
         ok (best, lst1, s1))))"

definition find_last_free_block :: "size_t \<Rightarrow> allocator \<Rightarrow> addr result" where
  "find_last_free_block hs s =
     and_then (walk_to_end hs s (head s) 0) (\<lambda>prev.
     and_then (rd hs s prev) (\<lambda>p.
       if blk_status p = STATUS_FREE then ok prev else ok 0))"

definition min_sz :: "size_t \<Rightarrow> size_t \<Rightarrow> size_t" where
  "min_sz a b = (if a < b then a else b)"

section \<open>Public operations\<close>

definition os_malloc :: "size_t \<Rightarrow> allocator \<Rightarrow> size_t \<Rightarrow> (addr \<times> allocator) result" where
  "os_malloc hs s sz =
     (if sz = 0 then ok (0, s)
      else
        let total_size = ALIGN sz + ALIGN hs
        in if total_size < MAP_THRESHOLD s then
             and_then
               (if heap_preallocated s = 0
                then and_then (preallocate_heap hs s) (\<lambda>s1. ok (s1\<lparr>heap_preallocated := 1\<rparr>))
                else ok s) (\<lambda>s1.
             and_then (find_best_free_block hs s1 (head s1) (ALIGN sz)) (\<lambda>(block, lst, s2).
               if block \<noteq> 0 then
                 and_then (split_block hs s2 block sz) (\<lambda>s3. ok (get_ptr_block hs block, s3))
               else
                 and_then (find_last_free_block hs s2) (\<lambda>lst.
                   if lst = 0 then
                     and_then (request_memory hs s2 sz) (\<lambda>(block, s3).
                       if block = 0 then die ''Error request new heap block in:os_malloc''
                       else and_then (add_memory_block hs s3 block) (\<lambda>s4.
                              ok (get_ptr_block hs block, s4)))
                   else
                     and_then (rd hs s2 lst) (\<lambda>l.
                     and_then (request_memory hs s2 (sz - blk_size l - ALIGN hs)) (\<lambda>(block, s3).
                       if block = 0 then die ''Error expanding heap block in:os_malloc''
                       else and_then (set_status hs s3 block STATUS_FREE) (\<lambda>s4.
                            and_then (coalesce_blocks hs s4 lst block) (\<lambda>s5.
                            and_then (set_status hs s5 lst STATUS_ALLOC) (\<lambda>s6.
                            ok (get_ptr_block hs lst, s6)))))))))
           else
             and_then (request_memory hs s sz) (\<lambda>(block, s1).
               if block = 0 then die ''Error request new mmap block in:os_malloc''
               else and_then (add_memory_block hs s1 block) (\<lambda>s2.
                      ok (get_ptr_block hs block, s2))))"

definition os_free :: "size_t \<Rightarrow> allocator \<Rightarrow> addr \<Rightarrow> allocator result" where
  "os_free hs s ptr =
     (if ptr = 0 then ok s
      else
        let block = get_block_ptr hs ptr
        in and_then (is_block_in_memory hs s block) (\<lambda>r.
             if r = 0 then ok s
             else and_then (rd hs s block) (\<lambda>b.
               if blk_status b = STATUS_ALLOC then
                 and_then (set_status hs s block STATUS_FREE) (\<lambda>s1. coalesce_memory hs s1)
               else if blk_status b = STATUS_MAPPED then
                 and_then (remove_memory_block hs s block) (\<lambda>s1.
                 and_then (rd hs s1 block) (\<lambda>b1.
                   let len = blk_size b1 + hs;
                       (ret, s2) = os_munmap s1 block len
                   in if ret \<noteq> 0 then die ''Error munmap in:os_free'' else ok s2))
               else ok s)))"

definition os_calloc :: "size_t \<Rightarrow> allocator \<Rightarrow> size_t \<Rightarrow> size_t \<Rightarrow> (addr \<times> allocator) result" where
  "os_calloc hs s nmemb sz =
     (let s0 = s\<lparr>MAP_THRESHOLD := getpagesize s\<rparr>
      in and_then (os_malloc hs s0 (nmemb * sz)) (\<lambda>(ptr, s1).
           let s2 = s1\<lparr>MAP_THRESHOLD := 128 * 1024\<rparr>
           in if ptr = 0 then ok (0, s2)
              else if accessible s2 ptr (unat (nmemb * sz))
              then ok (ptr, s2\<lparr>mem := memset (mem s2) ptr 0 (nmemb * sz)\<rparr>)
              else Some (Inl (Fault ptr))))"

text \<open>
  The three places where \<^verbatim>\<open>os_realloc\<close> moves a block. \<^verbatim>\<open>move_tail\<close> is the branch for
  the last block of the list: free, allocate, copy. \<^verbatim>\<open>move_block\<close> is the branch of the
  other heap blocks and of the mapped blocks: allocate, copy, free.
\<close>

definition move_tail :: "size_t \<Rightarrow> allocator \<Rightarrow> addr \<Rightarrow> size_t \<Rightarrow> (addr \<times> allocator) result" where
  "move_tail hs s block sz =
     and_then (os_free hs s (get_ptr_block hs block)) (\<lambda>s1.
     and_then (os_malloc hs s1 sz) (\<lambda>(new_ptr, s2).
       if new_ptr = 0 then ok (0, s2)
       else and_then (rd hs s2 block) (\<lambda>b.
              ok (new_ptr,
                  s2\<lparr>mem := memmove (mem s2) new_ptr (get_ptr_block hs block)
                                (min_sz (blk_size b) sz)\<rparr>))))"

definition move_block :: "size_t \<Rightarrow> allocator \<Rightarrow> addr \<Rightarrow> size_t \<Rightarrow> (addr \<times> allocator) result" where
  "move_block hs s block sz =
     and_then (os_malloc hs s sz) (\<lambda>(new_ptr, s1).
       if new_ptr = 0 then ok (0, s1)
       else and_then (rd hs s1 block) (\<lambda>b.
              let s2 = s1\<lparr>mem := memmove (mem s1) new_ptr (get_ptr_block hs block)
                                   (min_sz (blk_size b) sz)\<rparr>
              in and_then (os_free hs s2 (get_ptr_block hs block)) (\<lambda>s3. ok (new_ptr, s3))))"

definition os_realloc :: "size_t \<Rightarrow> allocator \<Rightarrow> addr \<Rightarrow> size_t \<Rightarrow> (addr \<times> allocator) result" where
  "os_realloc hs s ptr sz0 =
     (if ptr = 0 then os_malloc hs s sz0
      else if sz0 = 0 then and_then (os_free hs s ptr) (\<lambda>s1. ok (0, s1))
      else
        let block = get_block_ptr hs ptr
        in and_then (rd hs s block) (\<lambda>b.
             if blk_status b = STATUS_FREE then ok (0, s)
             else
               let sz = ALIGN sz0
               in if blk_size b = sz then ok (ptr, s)
                  else if blk_status b = STATUS_ALLOC then
                    (if blk_size b > sz then
                       and_then (split_block hs s block sz) (\<lambda>s1.
                         ok (get_ptr_block hs block, s1))
                     else
                       and_then (coalesce_memory hs s) (\<lambda>s1.
                       and_then (rd hs s1 block) (\<lambda>b1.
                       and_then
                         (if blk_next b1 \<noteq> 0
                          then and_then (rd hs s1 (blk_next b1)) (\<lambda>n.
                                 ok (blk_status n = STATUS_FREE \<and>
                                     blk_size b1 + blk_size n + ALIGN hs \<ge> sz))
                          else ok False) (\<lambda>expand.
                         if expand then
                           and_then (rd hs s1 (blk_next b1)) (\<lambda>n.
                           and_then (set_size hs s1 block
                                       (blk_size b1 + (blk_size n + ALIGN hs))) (\<lambda>s2.
                           and_then (rd hs s2 (blk_next b1)) (\<lambda>n'.
                           and_then (set_next hs s2 block (blk_next n')) (\<lambda>s3.
                           and_then (set_status hs s3 block STATUS_ALLOC) (\<lambda>s4.
                           and_then (split_block hs s4 block sz) (\<lambda>s5.
                             ok (get_ptr_block hs block, s5)))))))
                         else if blk_next b1 = 0 then move_tail hs s1 block sz
                         else move_block hs s1 block sz))))
                  else if blk_status b = STATUS_MAPPED then move_block hs s block sz
                  else ok (0, s)))"

section \<open>The block list as a list of addresses\<close>

text \<open>
  \<open>blocks hs m a as\<close>: following the \<^verbatim>\<open>next\<close> fields in the memory \<open>m\<close> from the address
  \<open>a\<close> visits exactly the addresses \<open>as\<close>, each holding a header, and then reaches null.
\<close>

primrec blocks :: "size_t \<Rightarrow> memory \<Rightarrow> addr \<Rightarrow> addr list \<Rightarrow> bool" where
  "blocks hs m a [] = (a = 0)"
| "blocks hs m a (b # bs) =
     (a = b \<and> (case hdr_at hs m a of None \<Rightarrow> False | Some h \<Rightarrow> blocks hs m (blk_next h) bs))"

text \<open>A fresh process: nothing allocated, zeroed memory, the default threshold.\<close>

definition fresh :: allocator where
  "fresh =
     \<lparr>head = 0, heap_preallocated = 0, MAP_THRESHOLD = 128 * 1024,
      mem = (\<lambda>x. Byte 0),
      brk = 0x100000, brk_max = 0x10000000,
      map_next = 0x20000000, map_max = 0x40000000,
      page_size = 4096, os_log = []\<rparr>"

section \<open>Concrete runs\<close>

text \<open>
  The states reached by some runs of the public operations from \<open>fresh\<close> with a header of
  32 bytes, written out. Each state is the one before it with the writes the call made, in
  the order the code made them, the latest outermost.
\<close>

text \<open>After \<^verbatim>\<open>os_malloc 32 fresh 200\<close>.\<close>

definition st_a1 :: allocator where
  "st_a1 =
     fresh\<lparr>head := 1048576,
       heap_preallocated := 1,
       mem :=
         store_hdr 32
           (store_hdr 32
             (store_hdr 32
               (store_hdr 32
                 (store_hdr 32
                   (mem fresh)
                   1048576 \<lparr>blk_size = 131040, blk_status = STATUS_FREE, blk_next = 0\<rparr>)
                 1048808 \<lparr>blk_size = 130808, blk_status = STATUS_FREE, blk_next = 0\<rparr>)
               1048576 \<lparr>blk_size = 200, blk_status = STATUS_FREE, blk_next = 0\<rparr>)
             1048576 \<lparr>blk_size = 200, blk_status = STATUS_FREE, blk_next = 1048808\<rparr>)
           1048576 \<lparr>blk_size = 200, blk_status = STATUS_ALLOC, blk_next = 1048808\<rparr>,
       brk := 1179648,
       os_log := [Sbrk 131072]\<rparr>"

text \<open>After \<^verbatim>\<open>os_malloc 32 st_a1 300\<close>.\<close>

definition st_a2 :: allocator where
  "st_a2 =
     st_a1\<lparr>mem :=
         store_hdr 32
           (store_hdr 32
             (store_hdr 32
               (store_hdr 32
                 (mem st_a1)
                 1049144 \<lparr>blk_size = 130472, blk_status = STATUS_FREE, blk_next = 0\<rparr>)
               1048808 \<lparr>blk_size = 304, blk_status = STATUS_FREE, blk_next = 0\<rparr>)
             1048808 \<lparr>blk_size = 304, blk_status = STATUS_FREE, blk_next = 1049144\<rparr>)
           1048808 \<lparr>blk_size = 304, blk_status = STATUS_ALLOC, blk_next = 1049144\<rparr>\<rparr>"

text \<open>After \<^verbatim>\<open>os_free 32 st_a2 1048608\<close>.\<close>

definition st_a3 :: allocator where
  "st_a3 =
     st_a2\<lparr>mem :=
         store_hdr 32
           (mem st_a2)
           1048576 \<lparr>blk_size = 200, blk_status = STATUS_FREE, blk_next = 1048808\<rparr>\<rparr>"

text \<open>After \<^verbatim>\<open>os_free 32 st_a3 1048840\<close>.\<close>

definition st_a4 :: allocator where
  "st_a4 =
     st_a3\<lparr>mem :=
         store_hdr 32
           (store_hdr 32
             (store_hdr 32
               (store_hdr 32
                 (mem st_a3)
                 1048808 \<lparr>blk_size = 304, blk_status = STATUS_FREE, blk_next = 1049144\<rparr>)
               1048576 \<lparr>blk_size = 536, blk_status = STATUS_FREE, blk_next = 1048808\<rparr>)
             1048576 \<lparr>blk_size = 536, blk_status = STATUS_FREE, blk_next = 1049144\<rparr>)
           1048576 \<lparr>blk_size = 536, blk_status = STATUS_FREE, blk_next = 1049144\<rparr>\<rparr>"

text \<open>After \<^verbatim>\<open>os_malloc 32 fresh 131032\<close>.\<close>

definition st_b1 :: allocator where
  "st_b1 =
     fresh\<lparr>head := 1048576,
       heap_preallocated := 1,
       mem :=
         store_hdr 32
           (store_hdr 32
             (mem fresh)
             1048576 \<lparr>blk_size = 131040, blk_status = STATUS_FREE, blk_next = 0\<rparr>)
           1048576 \<lparr>blk_size = 131040, blk_status = STATUS_ALLOC, blk_next = 0\<rparr>,
       brk := 1179648,
       os_log := [Sbrk 131072]\<rparr>"

text \<open>After \<^verbatim>\<open>os_malloc 32 st_b1 64\<close>.\<close>

definition st_b2 :: allocator where
  "st_b2 =
     st_b1\<lparr>mem :=
         store_hdr 32
           (store_hdr 32
             (mem st_b1)
             1179648 \<lparr>blk_size = 64, blk_status = STATUS_ALLOC, blk_next = 0\<rparr>)
           1048576 \<lparr>blk_size = 131040, blk_status = STATUS_ALLOC, blk_next = 1179648\<rparr>,
       brk := 1179744,
       os_log := os_log st_b1 @ [Sbrk 96]\<rparr>"

text \<open>After \<^verbatim>\<open>os_malloc 32 st_b2 48\<close>.\<close>

definition st_b3 :: allocator where
  "st_b3 =
     st_b2\<lparr>mem :=
         store_hdr 32
           (store_hdr 32
             (mem st_b2)
             1179744 \<lparr>blk_size = 48, blk_status = STATUS_ALLOC, blk_next = 0\<rparr>)
           1179648 \<lparr>blk_size = 64, blk_status = STATUS_ALLOC, blk_next = 1179744\<rparr>,
       brk := 1179824,
       os_log := os_log st_b2 @ [Sbrk 80]\<rparr>"

text \<open>The application fills its payload with the byte 255.\<close>

definition st_b4 :: allocator where
  "st_b4 = st_b3\<lparr>mem := memset (mem st_b3) 1179776 255 48\<rparr>"

text \<open>After \<^verbatim>\<open>os_free 32 st_b4 1179680\<close>.\<close>

definition st_b5 :: allocator where
  "st_b5 =
     st_b4\<lparr>mem :=
         store_hdr 32
           (mem st_b4)
           1179648 \<lparr>blk_size = 64, blk_status = STATUS_FREE, blk_next = 1179744\<rparr>\<rparr>"

text \<open>After \<^verbatim>\<open>os_realloc 32 st_b5 1179776 96\<close>.\<close>

definition st_b6 :: allocator where
  "st_b6 =
     st_b5\<lparr>mem :=
         memmove
           (store_hdr 32
             (store_hdr 32
               (store_hdr 32
                 (store_hdr 32
                   (store_hdr 32
                     (store_hdr 32
                       (store_hdr 32
                         (store_hdr 32
                           (mem st_b5)
                           1179744 \<lparr>blk_size = 48, blk_status = STATUS_FREE, blk_next = 0\<rparr>)
                         1179648 \<lparr>blk_size = 144, blk_status = STATUS_FREE, blk_next = 1179744\<rparr>)
                       1179648 \<lparr>blk_size = 144, blk_status = STATUS_FREE, blk_next = 0\<rparr>)
                     1179648 \<lparr>blk_size = 144, blk_status = STATUS_FREE, blk_next = 0\<rparr>)
                   1179776 \<lparr>blk_size = 16, blk_status = STATUS_FREE, blk_next = 0\<rparr>)
                 1179648 \<lparr>blk_size = 96, blk_status = STATUS_FREE, blk_next = 0\<rparr>)
               1179648 \<lparr>blk_size = 96, blk_status = STATUS_FREE, blk_next = 1179776\<rparr>)
             1179648 \<lparr>blk_size = 96, blk_status = STATUS_ALLOC, blk_next = 1179776\<rparr>)
           1179680 1179776 48\<rparr>"

text \<open>After \<^verbatim>\<open>os_malloc 32 fresh (- 1)\<close>.\<close>

definition st_z1 :: allocator where
  "st_z1 =
     fresh\<lparr>head := 1048576,
       heap_preallocated := 1,
       mem :=
         store_hdr 32
           (store_hdr 32
             (store_hdr 32
               (store_hdr 32
                 (store_hdr 32
                   (mem fresh)
                   1048576 \<lparr>blk_size = 131040, blk_status = STATUS_FREE, blk_next = 0\<rparr>)
                 1048608 \<lparr>blk_size = 131008, blk_status = STATUS_FREE, blk_next = 0\<rparr>)
               1048576 \<lparr>blk_size = 0, blk_status = STATUS_FREE, blk_next = 0\<rparr>)
             1048576 \<lparr>blk_size = 0, blk_status = STATUS_FREE, blk_next = 1048608\<rparr>)
           1048576 \<lparr>blk_size = 0, blk_status = STATUS_ALLOC, blk_next = 1048608\<rparr>,
       brk := 1179648,
       os_log := [Sbrk 131072]\<rparr>"

text \<open>After \<^verbatim>\<open>os_realloc 32 st_z1 1048608 0\<close>.\<close>

definition st_z2 :: allocator where
  "st_z2 =
     st_z1\<lparr>mem :=
         store_hdr 32
           (store_hdr 32
             (store_hdr 32
               (store_hdr 32
                 (mem st_z1)
                 1048576 \<lparr>blk_size = 0, blk_status = STATUS_FREE, blk_next = 1048608\<rparr>)
               1048576 \<lparr>blk_size = 131040, blk_status = STATUS_FREE, blk_next = 1048608\<rparr>)
             1048576 \<lparr>blk_size = 131040, blk_status = STATUS_FREE, blk_next = 0\<rparr>)
           1048576 \<lparr>blk_size = 131040, blk_status = STATUS_FREE, blk_next = 0\<rparr>\<rparr>"

text \<open>After \<^verbatim>\<open>os_malloc 32 fresh 16\<close>.\<close>

definition st_c1 :: allocator where
  "st_c1 =
     fresh\<lparr>head := 1048576,
       heap_preallocated := 1,
       mem :=
         store_hdr 32
           (store_hdr 32
             (store_hdr 32
               (store_hdr 32
                 (store_hdr 32
                   (mem fresh)
                   1048576 \<lparr>blk_size = 131040, blk_status = STATUS_FREE, blk_next = 0\<rparr>)
                 1048624 \<lparr>blk_size = 130992, blk_status = STATUS_FREE, blk_next = 0\<rparr>)
               1048576 \<lparr>blk_size = 16, blk_status = STATUS_FREE, blk_next = 0\<rparr>)
             1048576 \<lparr>blk_size = 16, blk_status = STATUS_FREE, blk_next = 1048624\<rparr>)
           1048576 \<lparr>blk_size = 16, blk_status = STATUS_ALLOC, blk_next = 1048624\<rparr>,
       brk := 1179648,
       os_log := [Sbrk 131072]\<rparr>"

text \<open>The application fills its payload with the byte 255.\<close>

definition st_c2 :: allocator where
  "st_c2 = st_c1\<lparr>mem := memset (mem st_c1) 1048608 255 16\<rparr>"

text \<open>After \<^verbatim>\<open>os_free 32 st_c2 1048608\<close>.\<close>

definition st_c3 :: allocator where
  "st_c3 =
     st_c2\<lparr>mem :=
         store_hdr 32
           (store_hdr 32
             (store_hdr 32
               (store_hdr 32
                 (mem st_c2)
                 1048576 \<lparr>blk_size = 16, blk_status = STATUS_FREE, blk_next = 1048624\<rparr>)
               1048576 \<lparr>blk_size = 131040, blk_status = STATUS_FREE, blk_next = 1048624\<rparr>)
             1048576 \<lparr>blk_size = 131040, blk_status = STATUS_FREE, blk_next = 0\<rparr>)
           1048576 \<lparr>blk_size = 131040, blk_status = STATUS_FREE, blk_next = 0\<rparr>\<rparr>"


text \<open>After \<^verbatim>\<open>os_malloc 32 fresh 200000\<close>.\<close>

definition st_m1 :: allocator where
  "st_m1 =
     fresh\<lparr>head := 536870912,
       mem :=
         store_hdr 32
           (mem fresh)
           536870912 \<lparr>blk_size = 200000, blk_status = STATUS_MAPPED, blk_next = 0\<rparr>,
       map_next := 537071616,
       os_log := [Mmap 200032]\<rparr>"

text \<open>After \<^verbatim>\<open>os_free 32 st_m1 536870944\<close>.\<close>

definition st_m2 :: allocator where
  "st_m2 =
     st_m1\<lparr>head := 0,
       mem :=
         store_hdr 32
           (mem st_m1)
           536870912 \<lparr>blk_size = 200000, blk_status = STATUS_MAPPED, blk_next = 0\<rparr>,
       os_log := os_log st_m1 @ [Munmap 536870912 200032]\<rparr>"


text \<open>After \<^verbatim>\<open>os_realloc 32 st_a1 1048608 50\<close>.\<close>

definition st_r1 :: allocator where
  "st_r1 =
     st_a1\<lparr>mem :=
         store_hdr 32
           (store_hdr 32
             (store_hdr 32
               (store_hdr 32
                 (mem st_a1)
                 1048664 \<lparr>blk_size = 112, blk_status = STATUS_FREE, blk_next = 1048808\<rparr>)
               1048576 \<lparr>blk_size = 56, blk_status = STATUS_ALLOC, blk_next = 1048808\<rparr>)
             1048576 \<lparr>blk_size = 56, blk_status = STATUS_ALLOC, blk_next = 1048664\<rparr>)
           1048576 \<lparr>blk_size = 56, blk_status = STATUS_ALLOC, blk_next = 1048664\<rparr>\<rparr>"

text \<open>After \<^verbatim>\<open>os_realloc 32 st_r1 1048608 8\<close>.\<close>

definition st_r2 :: allocator where
  "st_r2 =
     st_r1\<lparr>mem :=
         store_hdr 32
           (store_hdr 32
             (store_hdr 32
               (store_hdr 32
                 (mem st_r1)
                 1048616 \<lparr>blk_size = 16, blk_status = STATUS_FREE, blk_next = 1048664\<rparr>)
               1048576 \<lparr>blk_size = 8, blk_status = STATUS_ALLOC, blk_next = 1048664\<rparr>)
             1048576 \<lparr>blk_size = 8, blk_status = STATUS_ALLOC, blk_next = 1048616\<rparr>)
           1048576 \<lparr>blk_size = 8, blk_status = STATUS_ALLOC, blk_next = 1048616\<rparr>\<rparr>"

text \<open>After \<^verbatim>\<open>find_best_free_block 32 st_r2 (head st_r2) 130904\<close>.\<close>

definition st_r3 :: allocator where
  "st_r3 =
     st_r2\<lparr>mem :=
         store_hdr 32
           (store_hdr 32
             (store_hdr 32
               (mem st_r2)
               1048616 \<lparr>blk_size = 160, blk_status = STATUS_FREE, blk_next = 1048664\<rparr>)
             1048616 \<lparr>blk_size = 160, blk_status = STATUS_FREE, blk_next = 1048808\<rparr>)
           1048616 \<lparr>blk_size = 160, blk_status = STATUS_FREE, blk_next = 1048808\<rparr>\<rparr>"

text \<open>After \<^verbatim>\<open>os_malloc 32 st_r2 130904\<close>.\<close>

definition st_r4 :: allocator where
  "st_r4 =
     st_r3\<lparr>mem :=
         store_hdr 32
           (store_hdr 32
             (store_hdr 32
               (store_hdr 32
                 (store_hdr 32
                   (store_hdr 32
                     (mem st_r3)
                     1179648 \<lparr>blk_size = 64, blk_status = STATUS_ALLOC, blk_next = 0\<rparr>)
                   1179648 \<lparr>blk_size = 64, blk_status = STATUS_FREE, blk_next = 0\<rparr>)
                 1048808 \<lparr>blk_size = 130904, blk_status = STATUS_FREE, blk_next = 0\<rparr>)
               1048808 \<lparr>blk_size = 130904, blk_status = STATUS_FREE, blk_next = 0\<rparr>)
             1048808 \<lparr>blk_size = 130904, blk_status = STATUS_FREE, blk_next = 0\<rparr>)
           1048808 \<lparr>blk_size = 130904, blk_status = STATUS_ALLOC, blk_next = 0\<rparr>,
       brk := 1179744,
       os_log := os_log st_r3 @ [Sbrk 96]\<rparr>"

text \<open>After \<^verbatim>\<open>os_malloc 32 (st_c3\<lparr>MAP_THRESHOLD := getpagesize st_c3\<rparr>) 12\<close>.\<close>

definition st_d1 :: allocator where
  "st_d1 =
     st_c3\<lparr>MAP_THRESHOLD := 4096,
       mem :=
         store_hdr 32
           (store_hdr 32
             (store_hdr 32
               (store_hdr 32
                 (mem st_c3)
                 1048624 \<lparr>blk_size = 130992, blk_status = STATUS_FREE, blk_next = 0\<rparr>)
               1048576 \<lparr>blk_size = 16, blk_status = STATUS_FREE, blk_next = 0\<rparr>)
             1048576 \<lparr>blk_size = 16, blk_status = STATUS_FREE, blk_next = 1048624\<rparr>)
           1048576 \<lparr>blk_size = 16, blk_status = STATUS_ALLOC, blk_next = 1048624\<rparr>\<rparr>"


section \<open>Best fit, as the specification words it\<close>

text \<open>
  A candidate is a free block whose payload is at least the request. The best fit is the
  earliest candidate whose payload is no larger than that of any candidate, and null when
  there is no candidate. \<open>best_scan\<close> is the scan of \<^verbatim>\<open>find_best_free_block\<close> over the
  addresses of the list, with the current \<^verbatim>\<open>best\<close> as accumulator.
\<close>

definition fits :: "size_t \<Rightarrow> memory \<Rightarrow> size_t \<Rightarrow> addr \<Rightarrow> bool" where
  "fits hs m sz a =
     (case hdr_at hs m a of
        None \<Rightarrow> False
      | Some h \<Rightarrow> blk_status h = STATUS_FREE \<and> sz \<le> blk_size h)"

definition size_at :: "size_t \<Rightarrow> memory \<Rightarrow> addr \<Rightarrow> size_t" where
  "size_at hs m a = (case hdr_at hs m a of None \<Rightarrow> 0 | Some h \<Rightarrow> blk_size h)"

definition best_fit_spec :: "size_t \<Rightarrow> memory \<Rightarrow> size_t \<Rightarrow> addr list \<Rightarrow> addr" where
  "best_fit_spec hs m sz bs =
     (let cands = filter (fits hs m sz) bs
      in case filter (\<lambda>a. \<forall>c \<in> set cands. size_at hs m a \<le> size_at hs m c) cands of
           [] \<Rightarrow> 0
         | a # rest \<Rightarrow> a)"

fun best_scan :: "size_t \<Rightarrow> memory \<Rightarrow> size_t \<Rightarrow> addr list \<Rightarrow> addr \<Rightarrow> addr" where
  "best_scan hs m sz [] best = best"
| "best_scan hs m sz (a # as) best =
     best_scan hs m sz as
       (if fits hs m sz a
        then (if best = 0 then a else if size_at hs m best > size_at hs m a then a else best)
        else best)"

section \<open>Well-formed states\<close>

text \<open>
  The states the general theorems are about. \<open>within\<close>: the header at \<open>a\<close> and \<open>n\<close> bytes of
  payload behind it lie below the program break, or in the mapping area. A block of the
  list is in order when it starts at a multiple of 8, its header is valid, its payload
  size is a multiple of 8, header and payload lie within the memory of the process, and,
  when it is free, it is a block of the heap that ends at or before its successor.
\<close>

definition within :: "size_t \<Rightarrow> allocator \<Rightarrow> addr \<Rightarrow> nat \<Rightarrow> bool" where
  "within hs s a n =
     (a + unat hs + n \<le> brk s \<or>
      (brk_max s + unat hs \<le> a \<and> a + unat hs + n \<le> map_next s))"

definition block_inv :: "size_t \<Rightarrow> allocator \<Rightarrow> addr \<Rightarrow> block_meta \<Rightarrow> bool" where
  "block_inv hs s a h =
     (8 dvd unat (blk_size h) \<and> within hs s a (unat (blk_size h)) \<and>
      (blk_status h = STATUS_FREE \<longrightarrow>
         a + unat hs + unat (blk_size h) \<le> brk s \<and>
         (blk_next h \<noteq> 0 \<longrightarrow> a + unat hs + unat (blk_size h) \<le> blk_next h)))"





text \<open>
  The operating system has room for a request of \<open>sz\<close> bytes: \<^verbatim>\<open>ALIGN(sz)\<close> plus the header
  size does not wrap around, the limit of the break leaves space for the preallocation,
  the aligned request and a header, and the limit of the mapping area leaves space for
  the pages of the aligned request and a header.
\<close>

definition has_room :: "size_t \<Rightarrow> allocator \<Rightarrow> size_t \<Rightarrow> bool" where
  "has_room hs s sz =
     (unat (ALIGN sz) + unat hs < 2 ^ 64 \<and>
      brk s + unat PREALLOC_SIZE + unat (ALIGN sz) + unat hs \<le> brk_max s \<and>
      map_next s + round_pages (page_size s) (unat (ALIGN sz) + unat hs) \<le> map_max s)"

section \<open>Facts about the memory\<close>

lemma hdr_cells_iff:
  "hdr_cells m a h k n \<longleftrightarrow> (\<forall>i. k \<le> i \<and> i < n \<longrightarrow> m (a + i) = HdrByte h i)"
proof (induction m a h k n rule: hdr_cells.induct)
  case (1 m a h k n)
  show ?case
  proof (cases "k < n")
    case True
    have "(\<forall>i. k \<le> i \<and> i < n \<longrightarrow> m (a + i) = HdrByte h i) \<longleftrightarrow>
          m (a + k) = HdrByte h k \<and> (\<forall>i. k + 1 \<le> i \<and> i < n \<longrightarrow> m (a + i) = HdrByte h i)"
    proof (intro iffI conjI allI impI)
      assume H: "\<forall>i. k \<le> i \<and> i < n \<longrightarrow> m (a + i) = HdrByte h i"
      show "m (a + k) = HdrByte h k" using H True by simp
      fix i assume "k + 1 \<le> i \<and> i < n"
      then show "m (a + i) = HdrByte h i" using H by simp
    next
      fix i
      assume H: "m (a + k) = HdrByte h k \<and> (\<forall>i. k + 1 \<le> i \<and> i < n \<longrightarrow> m (a + i) = HdrByte h i)"
        and i: "k \<le> i \<and> i < n"
      show "m (a + i) = HdrByte h i"
      proof (cases "i = k")
        case True then show ?thesis using H by simp
      next
        case False then have "k + 1 \<le> i" using i by simp
        then show ?thesis using H i by blast
      qed
    qed
    then show ?thesis
      using True "1.IH" by (subst hdr_cells.simps) simp
  next
    case False
    then show ?thesis by (subst hdr_cells.simps) auto
  qed
qed

lemma hdr_at_Some_iff:
  "hdr_at hs m a = Some h \<longleftrightarrow>
     a \<noteq> 0 \<and> a \<noteq> ALLOCATION_FAILED \<and> (\<exists>i. m a = HdrByte h i) \<and>
     (\<forall>i < unat hs. m (a + i) = HdrByte h i)"
  by (auto simp: hdr_at_def hdr_cells_iff split: cell.splits)

lemma hdr_at_store_same:
  "a \<noteq> 0 \<Longrightarrow> a \<noteq> ALLOCATION_FAILED \<Longrightarrow> hs \<noteq> 0 \<Longrightarrow>
   hdr_at hs (store_hdr hs m a h) a = Some h"
  by (auto simp: hdr_at_Some_iff store_hdr_def unat_gt_0)

lemma hdr_at_store_disj:
  assumes "a + unat hs \<le> b \<or> b + unat hs \<le> a"
  shows "hdr_at hs (store_hdr hs m a h) b = hdr_at hs m b"
proof -
  have cell: "store_hdr hs m a h (b + i) = m (b + i)" if "i < unat hs" for i
    using assms that by (auto simp: store_hdr_def)
  have b0: "store_hdr hs m a h b = m b"
    using assms by (cases "unat hs = 0") (auto simp: store_hdr_def)
  have eq: "hdr_at hs (store_hdr hs m a h) b = Some x \<longleftrightarrow> hdr_at hs m b = Some x" for x
    unfolding hdr_at_Some_iff using cell b0 by auto
  show ?thesis
  proof (cases "hdr_at hs m b")
    case None
    then have "hdr_at hs (store_hdr hs m a h) b \<noteq> Some x" for x
      using eq by simp
    then show ?thesis
      using None by (cases "hdr_at hs (store_hdr hs m a h) b") auto
  next
    case (Some x)
    then show ?thesis using eq by simp
  qed
qed

lemma hdr_disjoint:
  assumes "hdr_at hs m a = Some ha" "hdr_at hs m b = Some hb" "a \<noteq> b"
  shows "a + unat hs \<le> b \<or> b + unat hs \<le> a"
proof (rule ccontr)
  assume n: "\<not> ?thesis"
  have A: "\<forall>i < unat hs. m (a + i) = HdrByte ha i" and B: "\<forall>i < unat hs. m (b + i) = HdrByte hb i"
    using assms by (auto simp: hdr_at_Some_iff)
  show False
  proof (cases "a < b")
    case True
    then have "b - a < unat hs" "0 < unat hs" using n by auto
    then have "m (a + (b - a)) = HdrByte ha (b - a)" "m (b + 0) = HdrByte hb 0"
      using A B by blast+
    then show False using True by simp
  next
    case False
    then have "a - b < unat hs" "0 < unat hs" "b < a" using n assms(3) by auto
    then have "m (b + (a - b)) = HdrByte hb (a - b)" "m (a + 0) = HdrByte ha 0"
      using A B by blast+
    then show False using \<open>b < a\<close> by simp
  qed
qed

lemma hdr_at_store_other:
  "hdr_at hs m a = Some h0 \<Longrightarrow> hdr_at hs m b = Some hb \<Longrightarrow> a \<noteq> b \<Longrightarrow>
   hdr_at hs (store_hdr hs m a h) b = Some hb"
  by (simp add: hdr_at_store_disj[OF hdr_disjoint])

lemma hdr_at_zero [simp]: "hdr_at hs m 0 = None"
  by (simp add: hdr_at_def split: cell.splits)

lemma hdr_at_bytes [simp]: "hdr_at hs (\<lambda>x. Byte c) a = None"
  by (simp add: hdr_at_def)

lemma hdr_at_nonzero: "hdr_at hs m a = Some h \<Longrightarrow> a \<noteq> 0 \<and> a \<noteq> ALLOCATION_FAILED"
  by (simp add: hdr_at_Some_iff)

lemma blocks_Cons_iff:
  "blocks hs m a (b # bs) \<longleftrightarrow>
     a = b \<and> (\<exists>h. hdr_at hs m b = Some h \<and> blocks hs m (blk_next h) bs)"
  by (auto split: option.splits)


lemma blocks_hdr: "blocks hs m a as \<Longrightarrow> b \<in> set as \<Longrightarrow> \<exists>h. hdr_at hs m b = Some h"
  by (induction as arbitrary: a) (auto split: option.splits)

lemma blocks_unique: "blocks hs m a as \<Longrightarrow> blocks hs m a bs \<Longrightarrow> as = bs"
proof (induction as arbitrary: a bs)
  case Nil
  then show ?case by (cases bs) (auto split: option.splits)
next
  case (Cons x xs)
  then show ?case by (cases bs) (auto split: option.splits)
qed

lemma blocks_suffix:
  "blocks hs m a (xs @ b # ys) \<Longrightarrow> blocks hs m b (b # ys)"
proof (induction xs arbitrary: a)
  case Nil
  then show ?case by (simp add: blocks_Cons_iff del: blocks.simps)
next
  case (Cons x xs)
  then show ?case
    by (auto simp: blocks_Cons_iff simp del: blocks.simps)
qed

lemma blocks_distinct: "blocks hs m a as \<Longrightarrow> distinct as"
proof (induction as arbitrary: a)
  case Nil
  then show ?case by simp
next
  case (Cons x xs)
  then obtain h where h: "hdr_at hs m x = Some h" "blocks hs m (blk_next h) xs" "a = x"
    by (auto split: option.splits)
  have "x \<notin> set xs"
  proof
    assume "x \<in> set xs"
    then obtain ys zs where xs: "xs = ys @ x # zs"
      by (auto simp: in_set_conv_decomp)
    then have "blocks hs m x (x # zs)"
      using h(2) blocks_suffix by blast
    moreover have "blocks hs m x (x # xs)"
      using h by simp
    ultimately have "x # zs = x # xs"
      by (rule blocks_unique)
    then show False using xs by simp
  qed
  then show ?case using Cons.IH h(2) by simp
qed

lemma blocks_cong:
  "blocks hs m a as \<Longrightarrow> (\<And>b. b \<in> set as \<Longrightarrow> hdr_at hs m' b = hdr_at hs m b) \<Longrightarrow>
   blocks hs m' a as"
  by (induction as arbitrary: a) (auto split: option.splits)

lemma in_memory_loop_blocks:
  "blocks hs (mem s) cur as \<Longrightarrow>
   in_memory_loop hs s b cur = Some (Inr (if b \<in> set as then 1 else 0))"
proof (induction as arbitrary: cur)
  case Nil
  then show ?case by (simp add: in_memory_loop.simps)
next
  case (Cons x xs)
  then obtain h where h: "hdr_at hs (mem s) x = Some h" "blocks hs (mem s) (blk_next h) xs" "cur = x"
    by (auto split: option.splits)
  have "x \<noteq> 0" using h(1) by (auto simp: hdr_at_Some_iff)
  then show ?case
    using h Cons.IH[OF h(2)] by (subst in_memory_loop.simps) auto
qed


lemma hdr_at_memset_disj:
  assumes "b + unat hs \<le> p \<or> p + unat n \<le> b" and "hs \<noteq> 0"
  shows "hdr_at hs (memset m p c n) b = hdr_at hs m b"
proof -
  have cell: "memset m p c n (b + i) = m (b + i)" if "i < unat hs" for i
    using assms that by (auto simp: memset_def)
  have b0: "memset m p c n b = m b"
    using assms unat_gt_0[of hs] by (auto simp: memset_def)
  have eq: "hdr_at hs (memset m p c n) b = Some x \<longleftrightarrow> hdr_at hs m b = Some x" for x
    unfolding hdr_at_Some_iff using cell b0 by auto
  show ?thesis
  proof (cases "hdr_at hs m b")
    case None
    then have "hdr_at hs (memset m p c n) b \<noteq> Some x" for x
      using eq by simp
    then show ?thesis
      using None by (cases "hdr_at hs (memset m p c n) b") auto
  next
    case (Some x)
    then show ?thesis using eq by simp
  qed
qed

section \<open>Facts about the result type and the header accessors\<close>

lemma and_then_simps [simp]:
  "and_then (Some (Inr x)) f = f x"
  "and_then (Some (Inl e)) f = Some (Inl e)"
  "and_then None f = None"
  "and_then (ok x) f = f x"
  "and_then (die msg) f = die msg"
  by (simp_all add: and_then_def ok_def die_def)

lemma and_then_Inr:
  "and_then r f = Some (Inr y) \<longleftrightarrow> (\<exists>x. r = Some (Inr x) \<and> f x = Some (Inr y))"
  by (auto simp: and_then_def split: option.splits sum.splits)

lemma ok_simps [simp]:
  "ok x = Some (Inr y) \<longleftrightarrow> x = y"
  "ok x \<noteq> Some (Inl e)"
  "ok x \<noteq> None"
  "die msg \<noteq> Some (Inr z)"
  "die msg \<noteq> None"
  by (simp_all add: ok_def die_def)

lemma rd_Some: "hdr_at hs (mem s) a = Some h \<Longrightarrow> rd hs s a = Some (Inr h)"
  by (simp add: rd_def ok_def)

lemma rd_Inr: "rd hs s a = Some (Inr h) \<longleftrightarrow> hdr_at hs (mem s) a = Some h"
  by (simp add: rd_def ok_def split: option.splits)

lemma wr_Inr:
  "wr hs s a h = Some (Inr s') \<longleftrightarrow>
     a \<noteq> 0 \<and> a \<noteq> ALLOCATION_FAILED \<and> s' = s\<lparr>mem := store_hdr hs (mem s) a h\<rparr>"
  by (auto simp: wr_def ok_def)

lemma set_status_Some:
  "hdr_at hs (mem s) a = Some h \<Longrightarrow>
   set_status hs s a v = Some (Inr (s\<lparr>mem := store_hdr hs (mem s) a (h\<lparr>blk_status := v\<rparr>)\<rparr>))"
  using hdr_at_nonzero[of hs "mem s" a h] by (simp add: set_status_def rd_Some wr_def ok_def)

lemma set_size_Some:
  "hdr_at hs (mem s) a = Some h \<Longrightarrow>
   set_size hs s a v = Some (Inr (s\<lparr>mem := store_hdr hs (mem s) a (h\<lparr>blk_size := v\<rparr>)\<rparr>))"
  using hdr_at_nonzero[of hs "mem s" a h] by (simp add: set_size_def rd_Some wr_def ok_def)

lemma set_next_Some:
  "hdr_at hs (mem s) a = Some h \<Longrightarrow>
   set_next hs s a v = Some (Inr (s\<lparr>mem := store_hdr hs (mem s) a (h\<lparr>blk_next := v\<rparr>)\<rparr>))"
  using hdr_at_nonzero[of hs "mem s" a h] by (simp add: set_next_def rd_Some wr_def ok_def)

text \<open>The equations that evaluate a call on a concrete state.\<close>

lemmas ev = ok_def die_def and_then_def rd_def wr_def set_size_def set_next_def set_status_def
  hdr_at_store_same hdr_at_store_disj hdr_at_memset_disj
  os_sbrk_def os_mmap_def os_munmap_def getpagesize_def round_pages_def accessible_def
  walk_to_end.simps append_block_def add_memory_block_def get_block_ptr_def get_ptr_block_def
  remove_loop.simps remove_memory_block_def in_memory_loop.simps is_block_in_memory_def
  request_memory_def preallocate_heap_def coalesce_blocks_def coalesce_body_def coalesce_loop.simps
  coalesce_memory_def split_block_def best_body_def best_loop.simps find_best_free_block_def
  find_last_free_block_def min_sz_def os_malloc_def os_free_def os_calloc_def move_tail_def
  move_block_def os_realloc_def ALIGN_def ALIGNMENT_def PREALLOC_SIZE_def ALLOCATION_FAILED_def
  Let_def fresh_def

section \<open>The claims\<close>

text \<open>
  C1. After every public operation no two neighbours in the list are both free; after
  \<^verbatim>\<open>p = allocate(200); q = allocate(300); free(p); free(q)\<close> on a fresh allocator the list is
  one free block with the payload of the preallocation. The code does not do that: the
  pass of \<^verbatim>\<open>coalesce_memory\<close> merges the blocks of \<^verbatim>\<open>p\<close> and \<^verbatim>\<open>q\<close> and then steps to the
  successor of the merged block, so the merged block (payload 536) and the free rest
  (payload 130472) stay apart, both free and neighbours.
\<close>

theorem coalesce_pass_leaves_free_neighbours:
  "os_malloc 32 fresh 200 = Some (Inr (1048608, st_a1)) \<and>
   os_malloc 32 st_a1 300 = Some (Inr (1048840, st_a2)) \<and>
   os_free 32 st_a2 1048608 = Some (Inr st_a3) \<and>
   os_free 32 st_a3 1048840 = Some (Inr st_a4) \<and>
   blocks 32 (mem st_a4) (head st_a4) [1048576, 1049144] \<and>
   hdr_at 32 (mem st_a4) 1048576 =
     Some \<lparr>blk_size = 536, blk_status = STATUS_FREE, blk_next = 1049144\<rparr> \<and>
   hdr_at 32 (mem st_a4) 1049144 =
     Some \<lparr>blk_size = 130472, blk_status = STATUS_FREE, blk_next = 0\<rparr>"
proof -
  have 1: "os_malloc 32 fresh 200 = Some (Inr (1048608, st_a1))"
    by (simp add: ev st_a1_def)
  have 2: "os_malloc 32 st_a1 300 = Some (Inr (1048840, st_a2))"
    by (simp add: ev st_a1_def st_a2_def)
  have 3: "os_free 32 st_a2 1048608 = Some (Inr st_a3)"
    by (simp add: ev st_a1_def st_a2_def st_a3_def)
  have 4: "os_free 32 st_a3 1048840 = Some (Inr st_a4)"
    by (simp add: ev st_a1_def st_a2_def st_a3_def st_a4_def)
  have 5: "hdr_at 32 (mem st_a4) 1048576 =
      Some \<lparr>blk_size = 536, blk_status = STATUS_FREE, blk_next = 1049144\<rparr>"
    by (simp add: ev st_a1_def st_a2_def st_a3_def st_a4_def)
  have 6: "hdr_at 32 (mem st_a4) 1049144 =
      Some \<lparr>blk_size = 130472, blk_status = STATUS_FREE, blk_next = 0\<rparr>"
    by (simp add: ev st_a1_def st_a2_def st_a3_def st_a4_def)
  have 7: "head st_a4 = 1048576"
    by (simp add: ev st_a1_def st_a2_def st_a3_def st_a4_def)
  have 8: "blocks 32 (mem st_a4) (head st_a4) [1048576, 1049144]"
    by (simp add: 5 6 7)
  show ?thesis
    using 1 2 3 4 5 6 8 by blast
qed

text \<open>
  C2. After \<^verbatim>\<open>q = resize(p, n)\<close> the first \<^verbatim>\<open>min(old_size, align8(n))\<close> bytes at \<^verbatim>\<open>q\<close> are the
  bytes \<^verbatim>\<open>p\<close> held before the call, also when the block of \<^verbatim>\<open>p\<close> is the last of the list and
  has to grow. The code frees that block before it copies: here the block of 48 bytes at
  1179744, filled with the byte 255, follows a free block of 64 bytes; the free merges the
  two, the allocation of 96 bytes splits the merged block and writes the header of the
  rest at 1179776, the old payload, and \<^verbatim>\<open>memmove\<close> then copies that header to \<^verbatim>\<open>q\<close>.
\<close>

theorem resize_of_last_block_copies_a_header:
  "os_malloc 32 fresh 131032 = Some (Inr (1048608, st_b1)) \<and>
   os_malloc 32 st_b1 64 = Some (Inr (1179680, st_b2)) \<and>
   os_malloc 32 st_b2 48 = Some (Inr (1179776, st_b3)) \<and>
   os_free 32 st_b4 1179680 = Some (Inr st_b5) \<and>
   hdr_at 32 (mem st_b5) (get_block_ptr 32 1179776) =
     Some \<lparr>blk_size = 48, blk_status = STATUS_ALLOC, blk_next = 0\<rparr> \<and>
   os_realloc 32 st_b5 1179776 96 = Some (Inr (1179680, st_b6)) \<and>
   map (mem st_b5) [1179776, 1179777, 1179807] = [Byte 255, Byte 255, Byte 255] \<and>
   map (mem st_b6) [1179680, 1179681, 1179711] =
     [HdrByte \<lparr>blk_size = 16, blk_status = STATUS_FREE, blk_next = 0\<rparr> 0,
      HdrByte \<lparr>blk_size = 16, blk_status = STATUS_FREE, blk_next = 0\<rparr> 1,
      HdrByte \<lparr>blk_size = 16, blk_status = STATUS_FREE, blk_next = 0\<rparr> 31]"
proof -
  note b = st_b1_def st_b2_def st_b3_def st_b4_def st_b5_def st_b6_def
  have 1: "os_malloc 32 fresh 131032 = Some (Inr (1048608, st_b1))"
    by (simp add: ev b)
  have 2: "os_malloc 32 st_b1 64 = Some (Inr (1179680, st_b2))"
    by (simp add: ev b)
  have 3: "os_malloc 32 st_b2 48 = Some (Inr (1179776, st_b3))"
    by (simp add: ev b)
  have 4: "os_free 32 st_b4 1179680 = Some (Inr st_b5)"
    by (simp add: ev b)
  have 5: "hdr_at 32 (mem st_b5) (get_block_ptr 32 1179776) =
      Some \<lparr>blk_size = 48, blk_status = STATUS_ALLOC, blk_next = 0\<rparr>"
    by (simp add: ev b)
  have 6: "os_realloc 32 st_b5 1179776 96 = Some (Inr (1179680, st_b6))"
    by (simp add: ev b)
  have 7: "map (mem st_b5) [1179776, 1179777, 1179807] = [Byte 255, Byte 255, Byte 255]"
    by (simp add: b store_hdr_def memset_def)
  have 8: "map (mem st_b6) [1179680, 1179681, 1179711] =
     [HdrByte \<lparr>blk_size = 16, blk_status = STATUS_FREE, blk_next = 0\<rparr> 0,
      HdrByte \<lparr>blk_size = 16, blk_status = STATUS_FREE, blk_next = 0\<rparr> 1,
      HdrByte \<lparr>blk_size = 16, blk_status = STATUS_FREE, blk_next = 0\<rparr> 31]"
    by (simp add: b store_hdr_def memset_def memmove_def)
  show ?thesis
    using 1 2 3 4 5 6 7 8 by blast
qed

section \<open>Mapped blocks\<close>

lemma remove_loop_member:
  assumes "blocks hs (mem s) cur as" and "block \<in> set as"
    and "hdr_at hs (mem s) block = Some hb" and "hs \<noteq> 0"
    and "cur = head s \<or> (\<exists>hp. hdr_at hs (mem s) prev = Some hp \<and> prev \<noteq> block)"
  shows "\<exists>s' h'. remove_loop hs s block cur prev = Some (Inr s') \<and> os_log s' = os_log s \<and>
           hdr_at hs (mem s') block = Some h' \<and> blk_size h' = blk_size hb"
  using assms
proof (induction as arbitrary: cur prev)
  case Nil
  then show ?case by simp
next
  case (Cons x xs)
  from Cons.prems(1) obtain h where h: "cur = x" "hdr_at hs (mem s) x = Some h"
      "blocks hs (mem s) (blk_next h) xs"
    by (auto simp: blocks_Cons_iff simp del: blocks.simps)
  have x0: "x \<noteq> 0" using h(2) hdr_at_nonzero by blast
  have b0: "block \<noteq> 0" "block \<noteq> ALLOCATION_FAILED" using Cons.prems(3) hdr_at_nonzero by blast+
  have hs0: "hs \<noteq> 0 \<or> hs = 0" by simp
  show ?case
  proof (cases "x = block")
    case True
    show ?thesis
    proof (cases "x = head s")
      case hd: True
      have 1: "set_next hs (s\<lparr>head := blk_next hb\<rparr>) block 0 =
          Some (Inr (s\<lparr>head := blk_next hb, mem := store_hdr hs (mem s) block (hb\<lparr>blk_next := 0\<rparr>)\<rparr>))"
        using set_next_Some[of hs "s\<lparr>head := blk_next hb\<rparr>" block hb 0] Cons.prems(3) by simp
      have 2: "remove_loop hs s block cur prev =
          Some (Inr (s\<lparr>head := blk_next hb, mem := store_hdr hs (mem s) block (hb\<lparr>blk_next := 0\<rparr>)\<rparr>))"
        using True hd h(1) x0 Cons.prems(3) 1
        by (subst remove_loop.simps) (simp add: rd_Some)
      have 3: "hdr_at hs (store_hdr hs (mem s) block (hb\<lparr>blk_next := 0\<rparr>)) block =
          Some (hb\<lparr>blk_next := 0\<rparr>)"
        using b0 Cons.prems(4) by (simp add: hdr_at_store_same)
      show ?thesis using 2 3 by simp
    next
      case nhd: False
      then obtain hp where hp: "hdr_at hs (mem s) prev = Some hp" "prev \<noteq> block"
        using Cons.prems(5) h(1) by auto
      let ?s1 = "s\<lparr>mem := store_hdr hs (mem s) prev (hp\<lparr>blk_next := blk_next hb\<rparr>)\<rparr>"
      have 1: "set_next hs s prev (blk_next hb) = Some (Inr ?s1)"
        using set_next_Some[OF hp(1)] by simp
      have 2: "hdr_at hs (mem ?s1) block = Some hb"
        using hdr_at_store_other[OF hp(1) Cons.prems(3) hp(2)] by simp
      let ?s2 = "?s1\<lparr>mem := store_hdr hs (mem ?s1) block (hb\<lparr>blk_next := 0\<rparr>)\<rparr>"
      have 3: "set_next hs ?s1 block 0 = Some (Inr ?s2)"
        using set_next_Some[OF 2] by simp
      have 4: "remove_loop hs s block cur prev = Some (Inr ?s2)"
        using True nhd h(1) x0 Cons.prems(3) 1 3
        by (subst remove_loop.simps) (simp add: rd_Some)
      have 5: "hdr_at hs (mem ?s2) block = Some (hb\<lparr>blk_next := 0\<rparr>)"
        using b0 Cons.prems(4) by (simp add: hdr_at_store_same)
      show ?thesis using 4 5 by simp
    qed
  next
    case False
    then have "block \<in> set xs" using Cons.prems(2) by simp
    moreover have "blk_next h = head s \<or> (\<exists>hp. hdr_at hs (mem s) x = Some hp \<and> x \<noteq> block)"
      using h(2) False by simp
    ultimately obtain s' h' where r: "remove_loop hs s block (blk_next h) x = Some (Inr s')"
        "os_log s' = os_log s" "hdr_at hs (mem s') block = Some h'" "blk_size h' = blk_size hb"
      using Cons.IH[OF h(3) _ Cons.prems(3) Cons.prems(4)] by blast
    have "remove_loop hs s block cur prev = remove_loop hs s block (blk_next h) x"
      using False h(1,2) x0 by (subst remove_loop.simps) simp
    then show ?thesis using r by simp
  qed
qed


lemma os_free_mapped:
  assumes "blocks hs (mem s) (head s) as" and "get_block_ptr hs p \<in> set as"
    and "hdr_at hs (mem s) (get_block_ptr hs p) = Some hb" and "hs \<noteq> 0"
    and "blk_status hb = STATUS_MAPPED" and "blk_size hb + hs \<noteq> 0"
  shows "\<exists>s'. os_free hs s p = Some (Inr s') \<and>
           os_log s' = os_log s @ [Munmap (get_block_ptr hs p) (blk_size hb + hs)]"
proof -
  let ?b = "get_block_ptr hs p"
  have "?b \<noteq> 0" using assms(3) hdr_at_nonzero by blast
  then have p0: "p \<noteq> 0" by (auto simp: get_block_ptr_def)
  have mem: "is_block_in_memory hs s ?b = Some (Inr 1)"
    using in_memory_loop_blocks[OF assms(1), of ?b] assms(2)
    by (simp add: is_block_in_memory_def)
  obtain s1 h1 where r: "remove_memory_block hs s ?b = Some (Inr s1)" "os_log s1 = os_log s"
      "hdr_at hs (mem s1) ?b = Some h1" "blk_size h1 = blk_size hb"
    using remove_loop_member[OF assms(1) assms(2) assms(3) assms(4), of 0]
    unfolding remove_memory_block_def by blast
  have "os_free hs s p =
      Some (Inr (s1\<lparr>os_log := os_log s1 @ [Munmap ?b (blk_size hb + hs)]\<rparr>))"
    using p0 mem assms(3,5,6) r
    by (simp add: os_free_def Let_def rd_Some os_munmap_def ok_def)
  then show ?thesis using r(2) by simp
qed

lemma os_malloc_mapped:
  assumes "hs \<noteq> 0" and "n \<noteq> 0" and "\<not> ALIGN n + ALIGN hs < MAP_THRESHOLD s"
    and "os_malloc hs s n = Some (Inr (p, s1))"
  shows "os_log s1 = os_log s @ [Mmap (ALIGN n + ALIGN hs)] \<and> ALIGN n + ALIGN hs \<noteq> 0 \<and>
         (\<exists>h. hdr_at hs (mem s1) (get_block_ptr hs p) = Some h \<and> blk_size h = ALIGN n \<and>
              blk_status h = STATUS_MAPPED)"
proof -
  let ?t = "ALIGN n + ALIGN hs"
  let ?h = "\<lparr>blk_size = ALIGN n, blk_status = STATUS_MAPPED, blk_next = 0\<rparr>"
  obtain block s0 where m: "os_mmap s ?t = (block, s0)"
    by (cases "os_mmap s ?t")
  have rq: "request_memory hs s n =
      (if block = ALLOCATION_FAILED \<or> block = 0 then ok (0, s0)
       else and_then (wr hs s0 block ?h) (\<lambda>s2. ok (block, s2)))"
    using assms(3) m by (simp add: request_memory_def Let_def)
  have ok: "block \<noteq> ALLOCATION_FAILED" "block \<noteq> 0"
    using assms(2,3,4) rq by (auto simp: os_malloc_def Let_def die_def split: if_splits)
  then have s0: "s0 = s\<lparr>map_next := map_next s + round_pages (page_size s) (unat ?t),
                        os_log := os_log s @ [Mmap ?t]\<rparr>" and t0: "?t \<noteq> 0"
    using m by (auto simp: os_mmap_def split: if_splits)
  let ?s2 = "s0\<lparr>mem := store_hdr hs (mem s0) block ?h\<rparr>"
  have rq2: "request_memory hs s n = Some (Inr (block, ?s2))"
    using rq ok by (simp add: wr_def ok_def)
  have h2: "hdr_at hs (mem ?s2) block = Some ?h"
    using ok assms(1) by (simp add: hdr_at_store_same)
  show ?thesis
  proof (cases "head s = 0")
    case True
    then have "add_memory_block hs ?s2 block = Some (Inr (?s2\<lparr>head := block\<rparr>))"
      using h2 s0 by (simp add: add_memory_block_def rd_Some ok_def)
    then have "os_malloc hs s n = Some (Inr (get_ptr_block hs block, ?s2\<lparr>head := block\<rparr>))"
      using assms(2,3) rq2 ok by (simp add: os_malloc_def Let_def ok_def)
    then have "p = get_ptr_block hs block" "s1 = ?s2\<lparr>head := block\<rparr>"
      using assms(4) by simp_all
    then show ?thesis
      using h2 s0 t0 by (simp add: get_ptr_block_def get_block_ptr_def)
  next
    case False
    let ?s3 = "?s2\<lparr>mem := store_hdr hs (mem ?s2) block (?h\<lparr>blk_next := head s\<rparr>)\<rparr>"
    have "set_next hs ?s2 block (head ?s2) = Some (Inr ?s3)"
      using set_next_Some[OF h2, of "head ?s2"] s0 by simp
    then have "add_memory_block hs ?s2 block = Some (Inr (?s3\<lparr>head := block\<rparr>))"
      using h2 s0 False by (simp add: add_memory_block_def rd_Some ok_def)
    then have "os_malloc hs s n = Some (Inr (get_ptr_block hs block, ?s3\<lparr>head := block\<rparr>))"
      using assms(2,3) rq2 ok by (simp add: os_malloc_def Let_def ok_def)
    then have "p = get_ptr_block hs block" "s1 = ?s3\<lparr>head := block\<rparr>"
      using assms(4) by simp_all
    moreover have "hdr_at hs (mem ?s3) block = Some (?h\<lparr>blk_next := head s\<rparr>)"
      using ok assms(1) by (simp add: hdr_at_store_same)
    ultimately show ?thesis
      using s0 t0 by (simp add: get_ptr_block_def get_block_ptr_def)
  qed
qed

section \<open>Alignment, coalescing and best fit\<close>

lemma ALIGN_alt: "ALIGN x = (x + 7) AND NOT (mask 3)"
  by (simp add: ALIGN_def ALIGNMENT_def mask_numeral)

lemma and_not_mask3: "(w :: size_t) AND NOT (mask 3) = w - (w AND mask 3)"
proof -
  have "w - (w AND mask 3) = w AND NOT (w AND mask 3)"
    by (rule disjunctive_diff_eq_and_not) (rule bit_eqI, auto simp: bit_simps)
  also have "\<dots> = w AND NOT (mask 3)"
    by (rule bit_eqI) (auto simp: bit_simps)
  finally show ?thesis by simp
qed

lemma ALIGN_eq: "ALIGN x = (x + 7) - ((x + 7) AND mask 3)"
  by (simp only: ALIGN_alt and_not_mask3)

lemma dvd8_iff: "8 dvd unat (w :: size_t) \<longleftrightarrow> w AND mask 3 = 0"
  using and_mask_dvd_nat[of 3 w] by simp

lemma ALIGN_dvd: "8 dvd unat (ALIGN x)"
proof -
  have "ALIGN x AND mask 3 = (x + 7) AND (NOT (mask 3) AND mask 3)"
    by (simp only: ALIGN_alt and.assoc)
  also have "NOT (mask 3) AND mask 3 = (0 :: size_t)"
    by (rule bit_eqI) (auto simp: bit_simps)
  finally show ?thesis by (simp add: dvd8_iff)
qed


lemma dvd8_add: "8 dvd unat (a :: size_t) \<Longrightarrow> 8 dvd unat b \<Longrightarrow> 8 dvd unat (a + b)"
proof -
  assume "8 dvd unat a" "8 dvd unat b"
  then have ab: "a AND mask 3 = 0" "b AND mask 3 = 0" by (simp_all add: dvd8_iff)
  have "(a + b) AND mask 3 = ((a AND mask 3) + (b AND mask 3)) AND mask 3"
    by (simp only: mask_eqs)
  then show ?thesis using ab by (simp add: dvd8_iff)
qed


lemma ALIGN_aligned: "8 dvd unat x \<Longrightarrow> ALIGN x = x"
proof -
  assume "8 dvd unat x"
  then have x: "x AND mask 3 = 0" by (simp add: dvd8_iff)
  have "(x + 7) AND mask 3 = ((x AND mask 3) + 7) AND mask 3"
    by (simp only: mask_eqs)
  also have "\<dots> = 7" using x by (simp add: mask_numeral)
  finally show ?thesis by (simp add: ALIGN_eq)
qed

lemma hdr_at_store_valid_other:
  assumes "hdr_at hs m a = Some h0" and "b \<noteq> a"
  shows "hdr_at hs (store_hdr hs m a h) b = hdr_at hs m b"
proof (cases "a + unat hs \<le> b \<or> b + unat hs \<le> a")
  case True
  then show ?thesis by (rule hdr_at_store_disj)
next
  case False
  have A: "\<forall>i < unat hs. m (a + i) = HdrByte h0 i"
    using assms(1) by (simp add: hdr_at_Some_iff)
  have S: "\<forall>i < unat hs. store_hdr hs m a h (a + i) = HdrByte h i"
    by (simp add: store_hdr_def)
  obtain j k where jk: "j < unat hs" "k < unat hs" "a + j = b + k" "j \<noteq> k"
  proof (cases "a < b")
    case True
    then have "b - a < unat hs" "0 < unat hs" "a + (b - a) = b + 0" "b - a \<noteq> 0"
      using False by auto
    then show ?thesis using that by blast
  next
    case False
    then have "0 < unat hs" "a - b < unat hs" "a + 0 = b + (a - b)" "0 \<noteq> a - b"
      using \<open>\<not> (a + unat hs \<le> b \<or> b + unat hs \<le> a)\<close> assms(2) by auto
    then show ?thesis using that by blast
  qed
  have 1: "hdr_at hs m b = None"
  proof (cases "hdr_at hs m b")
    case (Some hb)
    then have "m (b + k) = HdrByte hb k" using jk(2) by (simp add: hdr_at_Some_iff)
    moreover have "m (a + j) = HdrByte h0 j" using A jk(1) by simp
    ultimately show ?thesis using jk(3,4) by simp
  qed simp
  have 2: "hdr_at hs (store_hdr hs m a h) b = None"
  proof (cases "hdr_at hs (store_hdr hs m a h) b")
    case (Some hb)
    then have "store_hdr hs m a h (b + k) = HdrByte hb k" using jk(2) by (simp add: hdr_at_Some_iff)
    moreover have "store_hdr hs m a h (a + j) = HdrByte h j" using S jk(1) by simp
    ultimately show ?thesis using jk(3,4) by simp
  qed simp
  show ?thesis using 1 2 by simp
qed

lemma hdr_at_update:
  assumes "hdr_at hs m a = Some h0" and "hs \<noteq> 0"
  shows "hdr_at hs (store_hdr hs m a h) b = (if b = a then Some h else hdr_at hs m b)"
  using assms hdr_at_nonzero[OF assms(1)]
  by (simp add: hdr_at_store_same hdr_at_store_valid_other)

lemma coalesce_blocks_Some:
  assumes "hdr_at hs (mem s) b1 = Some h1" and "hdr_at hs (mem s) b2 = Some h2"
    and "b1 \<noteq> b2" and "hs \<noteq> 0"
  shows "\<exists>m'. coalesce_blocks hs s b1 b2 = Some (Inr (s\<lparr>mem := m'\<rparr>)) \<and>
           (\<forall>b. hdr_at hs m' b =
              (if b = b1
               then Some \<lparr>blk_size = blk_size h1 + (blk_size h2 + ALIGN hs),
                          blk_status = STATUS_FREE, blk_next = blk_next h2\<rparr>
               else hdr_at hs (mem s) b))"
proof -
  let ?m1 = "store_hdr hs (mem s) b1 (h1\<lparr>blk_size := blk_size h1 + (blk_size h2 + ALIGN hs)\<rparr>)"
  let ?s1 = "s\<lparr>mem := ?m1\<rparr>"
  have 1: "set_size hs s b1 (blk_size h1 + (blk_size h2 + ALIGN hs)) = Some (Inr ?s1)"
    using set_size_Some[OF assms(1)] by simp
  have m1: "hdr_at hs ?m1 b =
      (if b = b1 then Some (h1\<lparr>blk_size := blk_size h1 + (blk_size h2 + ALIGN hs)\<rparr>)
       else hdr_at hs (mem s) b)" for b
    by (rule hdr_at_update[OF assms(1,4)])
  let ?h1' = "h1\<lparr>blk_size := blk_size h1 + (blk_size h2 + ALIGN hs)\<rparr>"
  let ?m2 = "store_hdr hs ?m1 b1 (?h1'\<lparr>blk_next := blk_next h2\<rparr>)"
  let ?s2 = "?s1\<lparr>mem := ?m2\<rparr>"
  have h1': "hdr_at hs (mem ?s1) b1 = Some ?h1'" using m1 by simp
  have 2: "set_next hs ?s1 b1 (blk_next h2) = Some (Inr ?s2)"
    using set_next_Some[OF h1'] by simp
  have m2: "hdr_at hs ?m2 b =
      (if b = b1 then Some (?h1'\<lparr>blk_next := blk_next h2\<rparr>) else hdr_at hs (mem s) b)" for b
    using hdr_at_update[of hs ?m1 b1 ?h1' "?h1'\<lparr>blk_next := blk_next h2\<rparr>" b] h1' assms(4) m1
    by simp
  let ?h2' = "?h1'\<lparr>blk_next := blk_next h2\<rparr>"
  let ?m3 = "store_hdr hs ?m2 b1 (?h2'\<lparr>blk_status := STATUS_FREE\<rparr>)"
  have h2': "hdr_at hs (mem ?s2) b1 = Some ?h2'" using m2 by simp
  have 3: "set_status hs ?s2 b1 STATUS_FREE = Some (Inr (?s2\<lparr>mem := ?m3\<rparr>))"
    using set_status_Some[OF h2'] by simp
  have m3: "hdr_at hs ?m3 b =
      (if b = b1 then Some (?h2'\<lparr>blk_status := STATUS_FREE\<rparr>) else hdr_at hs (mem s) b)" for b
    using hdr_at_update[of hs ?m2 b1 ?h2' "?h2'\<lparr>blk_status := STATUS_FREE\<rparr>" b] h2' assms(4) m2
    by simp
  have rd2: "rd hs ?s1 b2 = Some (Inr h2)"
    using m1[of b2] assms(2,3) by (simp add: rd_Some)
  have c: "coalesce_blocks hs s b1 b2 = Some (Inr (s\<lparr>mem := ?m3\<rparr>))"
    using assms(1,2) 1 rd2 2 3 by (simp add: coalesce_blocks_def rd_Some)
  have heq: "?h2'\<lparr>blk_status := STATUS_FREE\<rparr> =
      \<lparr>blk_size = blk_size h1 + (blk_size h2 + ALIGN hs), blk_status = STATUS_FREE,
       blk_next = blk_next h2\<rparr>"
    by simp
  show ?thesis
  proof (intro exI[of _ ?m3] conjI allI)
    show "coalesce_blocks hs s b1 b2 = Some (Inr (s\<lparr>mem := ?m3\<rparr>))"
      by (rule c)
    show "hdr_at hs ?m3 b =
        (if b = b1
         then Some \<lparr>blk_size = blk_size h1 + (blk_size h2 + ALIGN hs),
                    blk_status = STATUS_FREE, blk_next = blk_next h2\<rparr>
         else hdr_at hs (mem s) b)" for b
      unfolding heq[symmetric] by (rule m3)
  qed
qed

lemma coalesce_body_merge:
  assumes "hdr_at hs (mem s) x = Some h" and "hdr_at hs (mem s) (blk_next h) = Some hy"
    and "x \<noteq> blk_next h" and "hs \<noteq> 0"
    and "blk_status h = STATUS_FREE" and "blk_status hy = STATUS_FREE"
  shows "\<exists>m1. coalesce_body hs s x = Some (Inr (s\<lparr>mem := m1\<rparr>, blk_next hy)) \<and>
           (\<forall>b. hdr_at hs m1 b =
              (if b = x
               then Some \<lparr>blk_size = blk_size h + (blk_size hy + ALIGN hs),
                          blk_status = STATUS_FREE, blk_next = blk_next hy\<rparr>
               else hdr_at hs (mem s) b))"
proof -
  obtain m1 where m1: "coalesce_blocks hs s x (blk_next h) = Some (Inr (s\<lparr>mem := m1\<rparr>))"
    "\<forall>b. hdr_at hs m1 b =
              (if b = x
               then Some \<lparr>blk_size = blk_size h + (blk_size hy + ALIGN hs),
                          blk_status = STATUS_FREE, blk_next = blk_next hy\<rparr>
               else hdr_at hs (mem s) b)"
    using coalesce_blocks_Some[OF assms(1,2,3,4)] by blast
  have "rd hs (s\<lparr>mem := m1\<rparr>) x =
      Some (Inr \<lparr>blk_size = blk_size h + (blk_size hy + ALIGN hs),
                 blk_status = STATUS_FREE, blk_next = blk_next hy\<rparr>)"
    using m1(2) by (simp add: rd_Some)
  then have "coalesce_body hs s x = Some (Inr (s\<lparr>mem := m1\<rparr>, blk_next hy))"
    using assms m1(1) by (simp add: coalesce_body_def rd_Some ok_def)
  then show ?thesis using m1(2) by blast
qed

lemma coalesce_body_skip:
  assumes "hdr_at hs (mem s) x = Some h" and "hdr_at hs (mem s) (blk_next h) = Some hy"
    and "\<not> (blk_status h = STATUS_FREE \<and> blk_status hy = STATUS_FREE)"
  shows "coalesce_body hs s x = Some (Inr (s, blk_next h))"
  using assms by (auto simp: coalesce_body_def rd_Some ok_def)

lemma coalesce_loop_blocks:
  assumes "blocks hs (mem s) cur as" and "hs \<noteq> 0"
  shows "\<exists>m' bs. coalesce_loop hs s cur = Some (Inr (s\<lparr>mem := m'\<rparr>)) \<and>
           blocks hs m' cur bs \<and> set bs \<subseteq> set as \<and> (as \<noteq> [] \<longrightarrow> bs \<noteq> []) \<and>
           (\<forall>b. b \<notin> set as \<longrightarrow> hdr_at hs m' b = hdr_at hs (mem s) b) \<and>
           ((\<forall>a \<in> set as. \<exists>h. hdr_at hs (mem s) a = Some h \<and> 8 dvd unat (blk_size h)) \<longrightarrow>
            (\<forall>a \<in> set bs. \<exists>h. hdr_at hs m' a = Some h \<and> 8 dvd unat (blk_size h)))"
  using assms(1)
proof (induction "length as" arbitrary: as s cur rule: less_induct)
  case less
  show ?case
  proof (cases as)
    case Nil
    then have "cur = 0" using less.prems by simp
    then have "coalesce_loop hs s cur = Some (Inr (s\<lparr>mem := mem s\<rparr>))"
      by (subst coalesce_loop.simps) simp
    then show ?thesis
      using Nil less.prems by (intro exI[of _ "mem s"] exI[of _ "[]"]) simp
  next
    case (Cons x xs)
    then obtain h where h: "cur = x" "hdr_at hs (mem s) x = Some h"
        "blocks hs (mem s) (blk_next h) xs"
      using less.prems by (auto simp: blocks_Cons_iff simp del: blocks.simps)
    have x0: "x \<noteq> 0" using h(2) hdr_at_nonzero by blast
    have dist: "distinct (x # xs)" using less.prems Cons blocks_distinct by blast
    show ?thesis
    proof (cases xs)
      case Nil
      then have "blk_next h = 0" using h(3) by simp
      then have "coalesce_loop hs s cur = Some (Inr (s\<lparr>mem := mem s\<rparr>))"
        using h(1,2) x0 by (subst coalesce_loop.simps) simp
      then show ?thesis
        using Nil Cons less.prems by (intro exI[of _ "mem s"] exI[of _ "[x]"]) auto
    next
      case (Cons y ys)
      then obtain hy where hy: "blk_next h = y" "hdr_at hs (mem s) y = Some hy"
          "blocks hs (mem s) (blk_next hy) ys"
        using h(3) by (auto simp: blocks_Cons_iff simp del: blocks.simps)
      have y0: "y \<noteq> 0" using hy(2) hdr_at_nonzero by blast
      have xy: "x \<noteq> y" "x \<notin> set ys" "y \<notin> set ys" using dist Cons by auto
      have as: "as = x # y # ys" using \<open>as = x # xs\<close> Cons by simp
      show ?thesis
      proof (cases "blk_status h = STATUS_FREE \<and> blk_status hy = STATUS_FREE")
        case True
        let ?hm = "\<lparr>blk_size = blk_size h + (blk_size hy + ALIGN hs),
                    blk_status = STATUS_FREE, blk_next = blk_next hy\<rparr>"
        obtain m1 where m1: "coalesce_body hs s x = Some (Inr (s\<lparr>mem := m1\<rparr>, blk_next hy))"
            "\<And>b. hdr_at hs m1 b = (if b = x then Some ?hm else hdr_at hs (mem s) b)"
          using coalesce_body_merge[of hs s x h hy] h(2) hy(1,2) xy(1) assms(2) True by auto
        have b1: "blocks hs (mem (s\<lparr>mem := m1\<rparr>)) (blk_next hy) ys"
        proof (rule blocks_cong[OF hy(3)])
          fix b assume "b \<in> set ys"
          then have "b \<noteq> x" using xy(2) by auto
          then show "hdr_at hs (mem (s\<lparr>mem := m1\<rparr>)) b = hdr_at hs (mem s) b"
            using m1(2) by simp
        qed
        have len: "length ys < length as" using as by simp
        obtain m' bs where r0: "coalesce_loop hs (s\<lparr>mem := m1\<rparr>) (blk_next hy) =
              Some (Inr (s\<lparr>mem := m1\<rparr>\<lparr>mem := m'\<rparr>))"
            "blocks hs m' (blk_next hy) bs" "set bs \<subseteq> set ys"
            "\<forall>b. b \<notin> set ys \<longrightarrow> hdr_at hs m' b = hdr_at hs (mem (s\<lparr>mem := m1\<rparr>)) b"
            "(\<forall>a \<in> set ys. \<exists>h. hdr_at hs (mem (s\<lparr>mem := m1\<rparr>)) a = Some h \<and>
                 8 dvd unat (blk_size h)) \<longrightarrow>
             (\<forall>a \<in> set bs. \<exists>h. hdr_at hs m' a = Some h \<and> 8 dvd unat (blk_size h))"
          using less.hyps[OF len b1] by blast
        have r: "coalesce_loop hs (s\<lparr>mem := m1\<rparr>) (blk_next hy) = Some (Inr (s\<lparr>mem := m'\<rparr>))"
            "blocks hs m' (blk_next hy) bs" "set bs \<subseteq> set ys"
            "\<forall>b. b \<notin> set ys \<longrightarrow> hdr_at hs m' b = hdr_at hs m1 b"
            "(\<forall>a \<in> set ys. \<exists>h. hdr_at hs m1 a = Some h \<and> 8 dvd unat (blk_size h)) \<longrightarrow>
             (\<forall>a \<in> set bs. \<exists>h. hdr_at hs m' a = Some h \<and> 8 dvd unat (blk_size h))"
          using r0 by simp_all
        have loop: "coalesce_loop hs s cur = Some (Inr (s\<lparr>mem := m'\<rparr>))"
          using h(1,2) x0 hy(1) y0 m1(1) r(1) by (subst coalesce_loop.simps) simp
        have hx: "hdr_at hs m' x = Some ?hm"
          using r(4) xy(2) m1(2) by simp
        have bl: "blocks hs m' x (x # bs)"
          using hx r(2) by (simp add: blocks_Cons_iff del: blocks.simps)
        have fr: "\<forall>b. b \<notin> set as \<longrightarrow> hdr_at hs m' b = hdr_at hs (mem s) b"
          using r(4) m1(2) as by auto
        have sz: "(\<forall>a \<in> set as. \<exists>h. hdr_at hs (mem s) a = Some h \<and> 8 dvd unat (blk_size h)) \<longrightarrow>
            (\<forall>a \<in> set (x # bs). \<exists>h. hdr_at hs m' a = Some h \<and> 8 dvd unat (blk_size h))"
        proof
          assume A: "\<forall>a \<in> set as. \<exists>h. hdr_at hs (mem s) a = Some h \<and> 8 dvd unat (blk_size h)"
          then have "8 dvd unat (blk_size h)" "8 dvd unat (blk_size hy)"
            using as h(2) hy(2) by auto
          then have "8 dvd unat (blk_size ?hm)"
            using ALIGN_dvd[of hs] by (simp add: dvd8_add)
          moreover have "\<forall>a \<in> set ys. \<exists>h. hdr_at hs m1 a = Some h \<and> 8 dvd unat (blk_size h)"
            using A as m1(2) xy(2) by auto
          ultimately show "\<forall>a \<in> set (x # bs). \<exists>h. hdr_at hs m' a = Some h \<and> 8 dvd unat (blk_size h)"
            using hx r(5) by auto
        qed
        show ?thesis
          using loop bl h(1) r(3) as fr sz
          by (intro exI[of _ m'] exI[of _ "x # bs"]) auto
      next
        case False
        have body: "coalesce_body hs s x = Some (Inr (s, y))"
          using coalesce_body_skip[OF h(2) _ False] hy(1,2) by simp
        have b1: "blocks hs (mem s) y (y # ys)"
          using h(3) hy(1) Cons by simp
        have len: "length (y # ys) < length as" using as by simp
        obtain m' bs where r: "coalesce_loop hs s y = Some (Inr (s\<lparr>mem := m'\<rparr>))"
            "blocks hs m' y bs" "set bs \<subseteq> set (y # ys)"
            "\<forall>b. b \<notin> set (y # ys) \<longrightarrow> hdr_at hs m' b = hdr_at hs (mem s) b"
            "(\<forall>a \<in> set (y # ys). \<exists>h. hdr_at hs (mem s) a = Some h \<and> 8 dvd unat (blk_size h)) \<longrightarrow>
             (\<forall>a \<in> set bs. \<exists>h. hdr_at hs m' a = Some h \<and> 8 dvd unat (blk_size h))"
          using less.hyps[OF len b1] by blast
        have loop: "coalesce_loop hs s cur = Some (Inr (s\<lparr>mem := m'\<rparr>))"
          using h(1,2) x0 hy(1) y0 body r(1) by (subst coalesce_loop.simps) simp
        have hx: "hdr_at hs m' x = Some h"
          using r(4) xy h(2) by simp
        have bl: "blocks hs m' x (x # bs)"
          using hx r(2) hy(1) by (simp add: blocks_Cons_iff del: blocks.simps)
        have fr: "\<forall>b. b \<notin> set as \<longrightarrow> hdr_at hs m' b = hdr_at hs (mem s) b"
          using r(4) as by auto
        have sz: "(\<forall>a \<in> set as. \<exists>h. hdr_at hs (mem s) a = Some h \<and> 8 dvd unat (blk_size h)) \<longrightarrow>
            (\<forall>a \<in> set (x # bs). \<exists>h. hdr_at hs m' a = Some h \<and> 8 dvd unat (blk_size h))"
          using hx r(5) h(2) as by auto
        show ?thesis
          using loop bl h(1) r(3) as fr sz
          by (intro exI[of _ m'] exI[of _ "x # bs"]) auto
      qed
    qed
  qed
qed

lemma best_body_eq:
  assumes "hdr_at hs (mem s) x = Some h"
    and "best = 0 \<or> (\<exists>hb. hdr_at hs (mem s) best = Some hb)"
  shows "best_body hs s sz x best =
     Some (Inr (if fits hs (mem s) sz x
                then (if best = 0 then x
                      else if size_at hs (mem s) best > size_at hs (mem s) x then x else best)
                else best))"
  using assms by (auto simp: best_body_def rd_Some ok_def fits_def size_at_def)

lemma best_loop_blocks:
  assumes "blocks hs (mem s) cur as"
    and "best = 0 \<or> (\<exists>hb. hdr_at hs (mem s) best = Some hb)"
  shows "best_loop hs s sz cur best lst =
     Some (Inr (best_scan hs (mem s) sz as best, if as = [] then lst else last as))"
  using assms
proof (induction as arbitrary: cur best lst)
  case Nil
  then show ?case by (subst best_loop.simps) simp
next
  case (Cons x xs)
  then obtain h where h: "cur = x" "hdr_at hs (mem s) x = Some h"
      "blocks hs (mem s) (blk_next h) xs"
    by (auto simp: blocks_Cons_iff simp del: blocks.simps)
  have x0: "x \<noteq> 0" using h(2) hdr_at_nonzero by blast
  let ?b = "if fits hs (mem s) sz x
            then (if best = 0 then x
                  else if size_at hs (mem s) best > size_at hs (mem s) x then x else best)
            else best"
  have body: "best_body hs s sz x best = Some (Inr ?b)"
    by (rule best_body_eq[OF h(2) Cons.prems(2)])
  have nb: "?b = 0 \<or> (\<exists>hb. hdr_at hs (mem s) ?b = Some hb)"
    using Cons.prems(2) h(2) by auto
  have "best_loop hs s sz cur best lst = best_loop hs s sz (blk_next h) ?b x"
    using h(1,2) x0 body by (subst best_loop.simps) simp
  also have "\<dots> = Some (Inr (best_scan hs (mem s) sz xs ?b, if xs = [] then x else last xs))"
    by (rule Cons.IH[OF h(3) nb])
  finally show ?case by simp
qed

lemma ex_min_list:
  fixes f :: "'a \<Rightarrow> 'b :: linorder"
  shows "xs \<noteq> [] \<Longrightarrow> \<exists>x \<in> set xs. \<forall>c \<in> set xs. f x \<le> f c"
proof (induction xs)
  case Nil
  then show ?case by simp
next
  case (Cons a xs)
  show ?case
  proof (cases "xs = []")
    case True
    then show ?thesis by simp
  next
    case False
    then obtain x where x: "x \<in> set xs" "\<forall>c \<in> set xs. f x \<le> f c"
      using Cons.IH by blast
    show ?thesis
    proof (cases "f a \<le> f x")
      case True
      then have "\<forall>c \<in> set (a # xs). f a \<le> f c" using x(2) by auto
      then show ?thesis by auto
    next
      case False
      then have "\<forall>c \<in> set (a # xs). f x \<le> f c" using x(2) by auto
      then show ?thesis using x(1) by auto
    qed
  qed
qed

lemma fits_nonzero: "fits hs m sz a \<Longrightarrow> a \<noteq> 0"
  by (auto simp: fits_def split: option.splits dest: hdr_at_nonzero)

lemma in_set_is_Cons: "x \<in> set xs \<Longrightarrow> \<exists>y ys. xs = y # ys"
  by (cases xs) auto

lemma best_fit_spec_props:
  assumes "filter (fits hs m sz) bs \<noteq> []"
  shows "best_fit_spec hs m sz bs \<in> set bs \<and> fits hs m sz (best_fit_spec hs m sz bs) \<and>
         (\<forall>c \<in> set bs. fits hs m sz c \<longrightarrow>
            size_at hs m (best_fit_spec hs m sz bs) \<le> size_at hs m c)"
proof -
  let ?C = "filter (fits hs m sz) bs"
  let ?M = "filter (\<lambda>a. \<forall>c \<in> set ?C. size_at hs m a \<le> size_at hs m c) ?C"
  obtain x where "x \<in> set ?C" "\<forall>c \<in> set ?C. size_at hs m x \<le> size_at hs m c"
    using ex_min_list[OF assms, of "size_at hs m"] by blast
  then have "x \<in> set ?M" by simp
  then have "\<exists>y ys. ?M = y # ys" by (rule in_set_is_Cons)
  then obtain b rest where M: "?M = b # rest" by iprover
  then have "b \<in> set ?M" by simp
  then have b: "b \<in> set ?C" "\<forall>c \<in> set ?C. size_at hs m b \<le> size_at hs m c" by auto
  have "best_fit_spec hs m sz bs = b"
    using M by (simp add: best_fit_spec_def Let_def)
  then show ?thesis using b by auto
qed

lemma best_fit_spec_none:
  "filter (fits hs m sz) bs = [] \<Longrightarrow> best_fit_spec hs m sz bs = 0"
  by (simp add: best_fit_spec_def)

lemma best_fit_spec_snoc:
  "best_fit_spec hs m sz (pre @ [a]) =
     (if fits hs m sz a
      then (if best_fit_spec hs m sz pre = 0 then a
            else if size_at hs m (best_fit_spec hs m sz pre) > size_at hs m a then a
            else best_fit_spec hs m sz pre)
      else best_fit_spec hs m sz pre)"
proof (cases "fits hs m sz a")
  case False
  then show ?thesis by (simp add: best_fit_spec_def)
next
  case True
  let ?C = "filter (fits hs m sz) pre"
  let ?f = "size_at hs m"
  show ?thesis
  proof (cases "?C = []")
    case True
    then have "best_fit_spec hs m sz (pre @ [a]) = a"
      using \<open>fits hs m sz a\<close> by (simp add: best_fit_spec_def)
    then show ?thesis
      using True \<open>fits hs m sz a\<close> by (simp add: best_fit_spec_none)
  next
    case False
    let ?b = "best_fit_spec hs m sz pre"
    let ?M = "filter (\<lambda>x. \<forall>c \<in> set ?C. ?f x \<le> ?f c) ?C"
    have b: "?b \<in> set pre" "fits hs m sz ?b" "\<forall>c \<in> set ?C. ?f ?b \<le> ?f c"
      using best_fit_spec_props[OF False] by auto
    have b0: "?b \<noteq> 0" using b(2) fits_nonzero by blast
    have bC: "?b \<in> set ?C" using b(1,2) by simp
    have spec: "best_fit_spec hs m sz (pre @ [a]) =
        (case filter (\<lambda>x. \<forall>c \<in> set (?C @ [a]). ?f x \<le> ?f c) (?C @ [a]) of
           [] \<Rightarrow> 0 | x # rest \<Rightarrow> x)"
      using \<open>fits hs m sz a\<close> by (simp add: best_fit_spec_def Let_def)
    show ?thesis
    proof (cases "?f ?b > ?f a")
      case True
      have "filter (\<lambda>x. \<forall>c \<in> set (?C @ [a]). ?f x \<le> ?f c) ?C = []"
      proof -
        have "\<not> ?f x \<le> ?f a" if "x \<in> set ?C" for x
          using b(3) that True by (meson leD order.strict_trans2)
        then show ?thesis by (auto simp: filter_empty_conv)
      qed
      moreover have "\<forall>c \<in> set (?C @ [a]). ?f a \<le> ?f c"
        using b(3) True by (auto intro: order.trans less_imp_le)
      ultimately have "filter (\<lambda>x. \<forall>c \<in> set (?C @ [a]). ?f x \<le> ?f c) (?C @ [a]) = [a]"
        by simp
      then show ?thesis
        using spec True b0 \<open>fits hs m sz a\<close> by simp
    next
      case False
      have "(\<forall>c \<in> set (?C @ [a]). ?f x \<le> ?f c) \<longleftrightarrow> (\<forall>c \<in> set ?C. ?f x \<le> ?f c)"
        if "x \<in> set ?C" for x
      proof
        assume m: "\<forall>c \<in> set ?C. ?f x \<le> ?f c"
        then have "?f x \<le> ?f ?b" using bC by blast
        then have "?f x \<le> ?f a" using False by simp
        then show "\<forall>c \<in> set (?C @ [a]). ?f x \<le> ?f c" using m by simp
      qed simp
      then have eq: "filter (\<lambda>x. \<forall>c \<in> set (?C @ [a]). ?f x \<le> ?f c) ?C = ?M"
        by (intro filter_cong) auto
      obtain r where M: "?M = ?b # r"
      proof -
        obtain x where "x \<in> set ?C" "\<forall>c \<in> set ?C. ?f x \<le> ?f c"
          using ex_min_list[OF \<open>?C \<noteq> []\<close>, of ?f] by blast
        then have "x \<in> set ?M" by simp
        then have "\<exists>y ys. ?M = y # ys" by (rule in_set_is_Cons)
        then obtain y r where "?M = y # r" by iprover
        moreover from this have "?b = y" by (simp add: best_fit_spec_def Let_def)
        ultimately show ?thesis using that by simp
      qed
      have "filter (\<lambda>x. \<forall>c \<in> set (?C @ [a]). ?f x \<le> ?f c) (?C @ [a]) =
          ?b # r @ filter (\<lambda>x. \<forall>c \<in> set (?C @ [a]). ?f x \<le> ?f c) [a]"
        using eq M by simp
      then show ?thesis
        using spec False b0 \<open>fits hs m sz a\<close> by simp
    qed
  qed
qed

lemma best_scan_spec:
  "best_scan hs m sz as (best_fit_spec hs m sz pre) = best_fit_spec hs m sz (pre @ as)"
proof (induction as arbitrary: pre)
  case Nil
  then show ?case by simp
next
  case (Cons a as)
  have "best_scan hs m sz (a # as) (best_fit_spec hs m sz pre) =
      best_scan hs m sz as (best_fit_spec hs m sz (pre @ [a]))"
    by (simp add: best_fit_spec_snoc)
  also have "\<dots> = best_fit_spec hs m sz ((pre @ [a]) @ as)"
    by (rule Cons.IH)
  finally show ?case by simp
qed

lemma best_scan_from_null:
  "best_scan hs m sz as 0 = best_fit_spec hs m sz as"
  using best_scan_spec[of hs m sz as "[]"] by (simp add: best_fit_spec_def)

lemma coalesce_memory_blocks:
  assumes "blocks hs (mem s) (head s) as" and "hs \<noteq> 0"
  shows "\<exists>m' bs. coalesce_memory hs s = Some (Inr (s\<lparr>mem := m'\<rparr>)) \<and>
           blocks hs m' (head s) bs \<and> set bs \<subseteq> set as \<and> (as \<noteq> [] \<longrightarrow> bs \<noteq> []) \<and>
           (\<forall>b. b \<notin> set as \<longrightarrow> hdr_at hs m' b = hdr_at hs (mem s) b) \<and>
           ((\<forall>a \<in> set as. \<exists>h. hdr_at hs (mem s) a = Some h \<and> 8 dvd unat (blk_size h)) \<longrightarrow>
            (\<forall>a \<in> set bs. \<exists>h. hdr_at hs m' a = Some h \<and> 8 dvd unat (blk_size h)))"
  unfolding coalesce_memory_def by (rule coalesce_loop_blocks[OF assms])

lemma find_best_free_block_blocks:
  assumes "blocks hs (mem s) (head s) as" and "hs \<noteq> 0"
  shows "\<exists>m' bs. coalesce_memory hs s = Some (Inr (s\<lparr>mem := m'\<rparr>)) \<and>
           find_best_free_block hs s lst sz =
             Some (Inr (best_fit_spec hs m' sz bs, if bs = [] then lst else last bs,
                        s\<lparr>mem := m'\<rparr>)) \<and>
           blocks hs m' (head s) bs \<and> set bs \<subseteq> set as \<and> (as \<noteq> [] \<longrightarrow> bs \<noteq> []) \<and>
           (\<forall>b. b \<notin> set as \<longrightarrow> hdr_at hs m' b = hdr_at hs (mem s) b) \<and>
           ((\<forall>a \<in> set as. \<exists>h. hdr_at hs (mem s) a = Some h \<and> 8 dvd unat (blk_size h)) \<longrightarrow>
            (\<forall>a \<in> set bs. \<exists>h. hdr_at hs m' a = Some h \<and> 8 dvd unat (blk_size h)))"
proof -
  obtain m' bs where c: "coalesce_memory hs s = Some (Inr (s\<lparr>mem := m'\<rparr>))"
      "blocks hs m' (head s) bs" "set bs \<subseteq> set as" "as \<noteq> [] \<longrightarrow> bs \<noteq> []"
      "\<forall>b. b \<notin> set as \<longrightarrow> hdr_at hs m' b = hdr_at hs (mem s) b"
      "(\<forall>a \<in> set as. \<exists>h. hdr_at hs (mem s) a = Some h \<and> 8 dvd unat (blk_size h)) \<longrightarrow>
       (\<forall>a \<in> set bs. \<exists>h. hdr_at hs m' a = Some h \<and> 8 dvd unat (blk_size h))"
    using coalesce_memory_blocks[OF assms] by blast
  have "blocks hs (mem (s\<lparr>mem := m'\<rparr>)) (head s) bs"
    using c(2) by simp
  then have "best_loop hs (s\<lparr>mem := m'\<rparr>) sz (head s) 0 lst =
      Some (Inr (best_scan hs (mem (s\<lparr>mem := m'\<rparr>)) sz bs 0, if bs = [] then lst else last bs))"
    by (rule best_loop_blocks) simp
  then have "find_best_free_block hs s lst sz =
      Some (Inr (best_fit_spec hs m' sz bs, if bs = [] then lst else last bs, s\<lparr>mem := m'\<rparr>))"
    using c(1) by (simp add: find_best_free_block_def Let_def best_scan_from_null ok_def)
  then show ?thesis
    using c by blast
qed

section \<open>Allocation on a well-formed state\<close>








lemma block_inv_mem [simp]: "block_inv hs (s\<lparr>mem := m\<rparr>) a h = block_inv hs s a h"
  by (simp add: block_inv_def within_def)










lemma within_mem [simp]: "within hs (s\<lparr>mem := m\<rparr>) a n = within hs s a n"
  by (simp add: within_def)














lemma has_room_threshold [simp]: "has_room hs (s\<lparr>MAP_THRESHOLD := t\<rparr>) sz = has_room hs s sz"
  by (simp add: has_room_def)

text \<open>
  A request whose zeroing leaves the memory of the process ends the process:
  \<^verbatim>\<open>zero_allocate(SIZE_MAX, 1)\<close> on a fresh allocator gets a block of payload 0 and then
  zeroes \<open>2 ^ 64 - 1\<close> bytes from its handle on.
\<close>

lemma unat_minus_1_size_t: "unat (- 1 :: size_t) = 18446744073709551615"
proof -
  have "(- 1 :: size_t) = 18446744073709551615" by simp
  then show ?thesis by (simp only: unat_numeral) simp
qed

lemma os_calloc_beyond_break:
  "os_calloc 32 fresh (- 1) 1 = Some (Inl (Fault 1048608))"
  by (simp add: ev unat_minus_1_size_t)

text \<open>
  C7. \<^verbatim>\<open>free(p)\<close> changes nothing when \<^verbatim>\<open>p\<close> is null or when the header of \<^verbatim>\<open>p\<close> is not in
  the block list; \<^verbatim>\<open>resize(q, n)\<close> with \<^verbatim>\<open>n > 0\<close> on a header whose status is free returns
  null and changes nothing.
\<close>

theorem free_ignores_unknown_resize_rejects_free:
  "os_free hs s 0 = Some (Inr s) \<and>
   (blocks hs (mem s) (head s) as \<and> get_block_ptr hs p \<notin> set as \<longrightarrow>
      os_free hs s p = Some (Inr s)) \<and>
   (n \<noteq> 0 \<and> q \<noteq> 0 \<and> hdr_at hs (mem s) (get_block_ptr hs q) = Some b \<and>
    blk_status b = STATUS_FREE \<longrightarrow> os_realloc hs s q n = Some (Inr (0, s)))"
proof (intro conjI impI)
  show "os_free hs s 0 = Some (Inr s)"
    by (simp add: os_free_def ok_def)
next
  assume a: "blocks hs (mem s) (head s) as \<and> get_block_ptr hs p \<notin> set as"
  then have "is_block_in_memory hs s (get_block_ptr hs p) = Some (Inr 0)"
    using in_memory_loop_blocks[of hs s "head s" as "get_block_ptr hs p"]
    by (simp add: is_block_in_memory_def)
  then show "os_free hs s p = Some (Inr s)"
    by (simp add: os_free_def ok_def Let_def)
next
  assume "n \<noteq> 0 \<and> q \<noteq> 0 \<and> hdr_at hs (mem s) (get_block_ptr hs q) = Some b \<and>
    blk_status b = STATUS_FREE"
  then show "os_realloc hs s q n = Some (Inr (0, s))"
    by (simp add: os_realloc_def rd_Some Let_def ok_def)
qed

theorem free_ignores_unknown_resize_rejects_free_witness:
  "os_free 32 st_a3 0 = Some (Inr st_a3) \<and>
   blocks 32 (mem st_a3) (head st_a3) [1048576, 1048808, 1049144] \<and>
   get_block_ptr 32 5000 \<notin> set [1048576, 1048808, 1049144] \<and>
   os_free 32 st_a3 5000 = Some (Inr st_a3) \<and>
   hdr_at 32 (mem st_a3) (get_block_ptr 32 1048608) =
     Some \<lparr>blk_size = 200, blk_status = STATUS_FREE, blk_next = 1048808\<rparr> \<and>
   os_realloc 32 st_a3 1048608 10 = Some (Inr (0, st_a3))"
proof -
  note a = st_a1_def st_a2_def st_a3_def
  have 1: "blocks 32 (mem st_a3) (head st_a3) [1048576, 1048808, 1049144]"
    by (simp add: ev a)
  have 2: "get_block_ptr 32 5000 \<notin> set [1048576, 1048808, 1049144]"
    by (simp add: get_block_ptr_def)
  have 3: "hdr_at 32 (mem st_a3) (get_block_ptr 32 1048608) =
      Some \<lparr>blk_size = 200, blk_status = STATUS_FREE, blk_next = 1048808\<rparr>"
    by (simp add: ev a)
  have T: "os_free 32 st_a3 0 = Some (Inr st_a3) \<and>
   (blocks 32 (mem st_a3) (head st_a3) [1048576, 1048808, 1049144] \<and>
    get_block_ptr 32 5000 \<notin> set [1048576, 1048808, 1049144] \<longrightarrow>
      os_free 32 st_a3 5000 = Some (Inr st_a3)) \<and>
   ((10 :: size_t) \<noteq> 0 \<and> (1048608 :: addr) \<noteq> 0 \<and>
    hdr_at 32 (mem st_a3) (get_block_ptr 32 1048608) =
      Some \<lparr>blk_size = 200, blk_status = STATUS_FREE, blk_next = 1048808\<rparr> \<and>
    blk_status \<lparr>blk_size = 200, blk_status = STATUS_FREE, blk_next = 1048808\<rparr> = STATUS_FREE \<longrightarrow>
      os_realloc 32 st_a3 1048608 10 = Some (Inr (0, st_a3)))"
    by (rule free_ignores_unknown_resize_rejects_free)
  have 4: "(10 :: size_t) \<noteq> 0" "(1048608 :: addr) \<noteq> 0"
    "blk_status \<lparr>blk_size = 200, blk_status = STATUS_FREE, blk_next = 1048808\<rparr> = STATUS_FREE"
    by simp_all
  show ?thesis
    using T 1 2 3 4 by blast
qed

text \<open>
  C8. \<^verbatim>\<open>allocate(0)\<close> returns null and leaves the whole state as it was: the list, the
  preallocation flag, the threshold, and the log of the calls to the operating system.
\<close>

theorem allocate_zero_returns_null_unchanged:
  "os_malloc hs s 0 = Some (Inr (0, s))"
  by (simp add: os_malloc_def ok_def)

text \<open>
  C9, as stated: for a handle \<^verbatim>\<open>p\<close> whose header is allocated or mapped, \<^verbatim>\<open>resize(p, n)\<close>
  with \<^verbatim>\<open>align8(n)\<close> equal to the payload size returns \<^verbatim>\<open>p\<close> and changes nothing. It fails for
  \<^verbatim>\<open>n = 0\<close> on a block of payload 0, which \<^verbatim>\<open>allocate(SIZE_MAX)\<close> creates: the test
  \<^verbatim>\<open>size == 0\<close> comes first, frees the block and returns null.
\<close>

theorem resize_zero_on_empty_block_frees:
  "os_malloc 32 fresh (- 1) = Some (Inr (1048608, st_z1)) \<and>
   hdr_at 32 (mem st_z1) (get_block_ptr 32 1048608) =
     Some \<lparr>blk_size = 0, blk_status = STATUS_ALLOC, blk_next = 1048608\<rparr> \<and>
   ALIGN 0 = 0 \<and>
   os_realloc 32 st_z1 1048608 0 = Some (Inr (0, st_z2)) \<and>
   hdr_at 32 (mem st_z2) (get_block_ptr 32 1048608) =
     Some \<lparr>blk_size = 131040, blk_status = STATUS_FREE, blk_next = 0\<rparr>"
proof -
  note z = st_z1_def st_z2_def
  have 1: "os_malloc 32 fresh (- 1) = Some (Inr (1048608, st_z1))"
    by (simp add: ev z)
  have 2: "hdr_at 32 (mem st_z1) (get_block_ptr 32 1048608) =
      Some \<lparr>blk_size = 0, blk_status = STATUS_ALLOC, blk_next = 1048608\<rparr>"
    by (simp add: ev z)
  have 3: "ALIGN 0 = 0"
    by (simp add: ALIGN_def ALIGNMENT_def)
  have 4: "os_realloc 32 st_z1 1048608 0 = Some (Inr (0, st_z2))"
    by (simp add: ev z)
  have 5: "hdr_at 32 (mem st_z2) (get_block_ptr 32 1048608) =
      Some \<lparr>blk_size = 131040, blk_status = STATUS_FREE, blk_next = 0\<rparr>"
    by (simp add: ev z)
  show ?thesis
    using 1 2 3 4 5 by blast
qed

text \<open>
  C9, amended: for a handle \<^verbatim>\<open>p\<close> whose header is allocated or mapped and for \<^verbatim>\<open>n > 0\<close> with
  \<^verbatim>\<open>align8(n)\<close> equal to the payload size, \<^verbatim>\<open>resize(p, n)\<close> returns \<^verbatim>\<open>p\<close> and changes nothing.
\<close>

theorem resize_to_current_size_is_identity:
  assumes "n \<noteq> 0"
    and "hdr_at hs (mem s) (get_block_ptr hs p) = Some b"
    and "blk_status b = STATUS_ALLOC \<or> blk_status b = STATUS_MAPPED"
    and "ALIGN n = blk_size b"
  shows "os_realloc hs s p n = Some (Inr (p, s))"
proof -
  have "get_block_ptr hs p \<noteq> 0"
    using assms(2) hdr_at_nonzero by blast
  then have "p \<noteq> 0"
    by (auto simp: get_block_ptr_def)
  then show ?thesis
    using assms by (auto simp: os_realloc_def rd_Some Let_def ok_def)
qed

theorem resize_to_current_size_is_identity_witness:
  "(200 :: size_t) \<noteq> 0 \<and>
   hdr_at 32 (mem st_a1) (get_block_ptr 32 1048608) =
     Some \<lparr>blk_size = 200, blk_status = STATUS_ALLOC, blk_next = 1048808\<rparr> \<and>
   ALIGN 200 = 200 \<and>
   os_realloc 32 st_a1 1048608 200 = Some (Inr (1048608, st_a1))"
proof -
  have 1: "hdr_at 32 (mem st_a1) (get_block_ptr 32 1048608) =
      Some \<lparr>blk_size = 200, blk_status = STATUS_ALLOC, blk_next = 1048808\<rparr>"
    by (simp add: ev st_a1_def)
  have 2: "ALIGN 200 = 200"
    by (simp add: ALIGN_def ALIGNMENT_def)
  show ?thesis
    using 1 2
      resize_to_current_size_is_identity
        [of 200 32 st_a1 1048608
            "\<lparr>blk_size = 200, blk_status = STATUS_ALLOC, blk_next = 1048808\<rparr>"]
    by simp
qed

text \<open>
  C10. \<^verbatim>\<open>zero_allocate(k, s)\<close> multiplies in \<^verbatim>\<open>size_t\<close>. When the product of \<^verbatim>\<open>k\<close> and \<^verbatim>\<open>s\<close> is
  \<open>2 ^ 64\<close> or more, the allocation is the one for the product reduced modulo \<open>2 ^ 64\<close>, made
  with the page size as threshold; when that allocation returns a handle and the reduced
  number of bytes behind it is memory of the process, the call returns this handle, and
  the memory it leaves is the memory of the allocation with exactly the reduced number
  of bytes from the handle on set to zero. So \<^verbatim>\<open>zero_allocate(2 ^ 62 + 3, 4)\<close> returns a
  block of 16 bytes with 12 bytes zeroed.
\<close>

theorem calloc_request_wraps:
  assumes "2 ^ 64 \<le> unat k * unat sz"
    and "os_malloc hs (s\<lparr>MAP_THRESHOLD := getpagesize s\<rparr>)
           (of_nat ((unat k * unat sz) mod 2 ^ 64)) = Some (Inr (p, s1))"
    and "p \<noteq> 0"
    and "accessible s1 p ((unat k * unat sz) mod 2 ^ 64)"
  shows "\<exists>s'. os_calloc hs s k sz = Some (Inr (p, s')) \<and>
           (\<forall>x. mem s' x =
              (if p \<le> x \<and> x < p + (unat k * unat sz) mod 2 ^ 64 then Byte 0 else mem s1 x))"
proof -
  let ?n = "(unat k * unat sz) mod 2 ^ 64"
  have u: "unat (k * sz) = ?n"
    by (simp add: unat_word_ariths)
  have "(of_nat ?n :: size_t) = of_nat (unat (k * sz))"
    by (simp only: u)
  then have n: "(of_nat ?n :: size_t) = k * sz"
    by simp
  have m: "os_malloc hs (s\<lparr>MAP_THRESHOLD := getpagesize s\<rparr>) (k * sz) = Some (Inr (p, s1))"
    using assms(2) by (simp only: n)
  have a: "accessible (s1\<lparr>MAP_THRESHOLD := 128 * 1024\<rparr>) p (unat (k * sz))"
    using assms(4) by (simp add: u accessible_def)
  let ?s' = "s1\<lparr>MAP_THRESHOLD := 128 * 1024, mem := memset (mem s1) p 0 (k * sz)\<rparr>"
  have 1: "os_calloc hs s k sz = Some (Inr (p, ?s'))"
    using m assms(3) a by (simp add: os_calloc_def Let_def ok_def)
  have 2: "\<forall>x. mem ?s' x = (if p \<le> x \<and> x < p + ?n then Byte 0 else mem s1 x)"
    by (simp add: memset_def u)
  show ?thesis
    by (rule exI[of _ ?s'], intro conjI 1 2)
qed

theorem calloc_request_wraps_witness:
  "2 ^ 64 \<le> unat (2 ^ 62 + 3 :: size_t) * unat (4 :: size_t) \<and>
   (unat (2 ^ 62 + 3 :: size_t) * unat (4 :: size_t)) mod 2 ^ 64 = 12 \<and>
   os_malloc 32 (st_c3\<lparr>MAP_THRESHOLD := getpagesize st_c3\<rparr>) 12 = Some (Inr (1048608, st_d1)) \<and>
   accessible st_d1 1048608 12 \<and>
   mem st_c3 (1048608 + 11) = Byte 255 \<and>
   hdr_at 32 (mem st_d1) (get_block_ptr 32 1048608) =
     Some \<lparr>blk_size = 16, blk_status = STATUS_ALLOC, blk_next = 1048624\<rparr> \<and>
   (\<exists>s'. os_calloc 32 st_c3 (2 ^ 62 + 3) 4 = Some (Inr (1048608, s')) \<and>
         mem s' (1048608 + 11) = Byte 0 \<and> mem s' (1048608 + 12) = Byte 255)"
proof -
  note c = st_c1_def st_c2_def st_c3_def st_d1_def
  have 1: "2 ^ 64 \<le> unat (2 ^ 62 + 3 :: size_t) * unat (4 :: size_t)"
    by simp
  have 2: "(unat (2 ^ 62 + 3 :: size_t) * unat (4 :: size_t)) mod 2 ^ 64 = 12"
    by simp
  have 3: "os_malloc 32 (st_c3\<lparr>MAP_THRESHOLD := getpagesize st_c3\<rparr>) 12 =
      Some (Inr (1048608, st_d1))"
    by (simp add: ev c)
  have 4: "accessible st_d1 1048608 12"
    by (simp add: accessible_def c)
  have 5: "mem st_c3 (1048608 + 11) = Byte 255"
    by (simp add: c memset_def store_hdr_def)
  have 6: "hdr_at 32 (mem st_d1) (get_block_ptr 32 1048608) =
      Some \<lparr>blk_size = 16, blk_status = STATUS_ALLOC, blk_next = 1048624\<rparr>"
    by (simp add: ev c)
  have 7: "mem st_d1 (1048608 + 11) = Byte 255" "mem st_d1 (1048608 + 12) = Byte 255"
    by (simp_all add: c memset_def store_hdr_def)
  have m3: "os_malloc 32 (st_c3\<lparr>MAP_THRESHOLD := getpagesize st_c3\<rparr>)
      (of_nat ((unat (2 ^ 62 + 3 :: size_t) * unat (4 :: size_t)) mod 2 ^ 64)) =
      Some (Inr (1048608, st_d1))"
    using 3 by (simp only: 2) simp
  have a4: "accessible st_d1 1048608 ((unat (2 ^ 62 + 3 :: size_t) * unat (4 :: size_t)) mod 2 ^ 64)"
    using 4 by (simp only: 2)
  have "\<exists>s'. os_calloc 32 st_c3 (2 ^ 62 + 3) 4 = Some (Inr (1048608, s')) \<and>
           (\<forall>x. mem s' x =
              (if 1048608 \<le> x \<and>
                  x < 1048608 + (unat (2 ^ 62 + 3 :: size_t) * unat (4 :: size_t)) mod 2 ^ 64
               then Byte 0 else mem st_d1 x))"
    by (rule calloc_request_wraps [OF 1 m3 _ a4]) simp
  then obtain s' where s': "os_calloc 32 st_c3 (2 ^ 62 + 3) 4 = Some (Inr (1048608, s'))"
      and b: "\<forall>x. mem s' x =
              (if 1048608 \<le> x \<and>
                  x < 1048608 + (unat (2 ^ 62 + 3 :: size_t) * unat (4 :: size_t)) mod 2 ^ 64
               then Byte 0 else mem st_d1 x)"
    by (elim exE conjE)
  have b': "\<forall>x. mem s' x = (if 1048608 \<le> x \<and> x < 1048608 + 12 then Byte 0 else mem st_d1 x)"
    using b unfolding 2 .
  have 8: "mem s' (1048608 + 11) = Byte 0" using b' by simp
  have 9: "mem s' (1048608 + 12) = Byte 255" using b' 7(2) by simp
  have 10: "\<exists>s'. os_calloc 32 st_c3 (2 ^ 62 + 3) 4 = Some (Inr (1048608, s')) \<and>
         mem s' (1048608 + 11) = Byte 0 \<and> mem s' (1048608 + 12) = Byte 255"
    by (rule exI[of _ s'], intro conjI s' 8 9)
  show ?thesis
    by (intro conjI 1 2 3 4 5 6 10)
qed

text \<open>
  C6. For a mapped block the length passed to \<^verbatim>\<open>munmap\<close> when it is freed is the length
  passed to \<^verbatim>\<open>mmap\<close> when it was acquired. The header size is a multiple of 8, as the size
  of a struct that holds a \<^verbatim>\<open>size_t\<close> is. Between the two calls the block stays in the list
  and keeps its size and status; \<open>s2\<close> is the state in which it is freed.
\<close>

theorem unmap_length_is_map_length:
  assumes "hs \<noteq> 0" and "ALIGN hs = hs"
    and "n \<noteq> 0" and "\<not> ALIGN n + ALIGN hs < MAP_THRESHOLD s"
    and "os_malloc hs s n = Some (Inr (p, s1))"
    and "blocks hs (mem s2) (head s2) as" and "get_block_ptr hs p \<in> set as"
    and "map_option blk_size (hdr_at hs (mem s2) (get_block_ptr hs p)) =
         map_option blk_size (hdr_at hs (mem s1) (get_block_ptr hs p))"
    and "map_option blk_status (hdr_at hs (mem s2) (get_block_ptr hs p)) =
         map_option blk_status (hdr_at hs (mem s1) (get_block_ptr hs p))"
  shows "\<exists>len s3. os_log s1 = os_log s @ [Mmap len] \<and>
           os_free hs s2 p = Some (Inr s3) \<and>
           os_log s3 = os_log s2 @ [Munmap (get_block_ptr hs p) len]"
proof -
  let ?len = "ALIGN n + ALIGN hs"
  from os_malloc_mapped[OF assms(1,3,4,5)] obtain h where
    m: "os_log s1 = os_log s @ [Mmap ?len]" "?len \<noteq> 0"
       "hdr_at hs (mem s1) (get_block_ptr hs p) = Some h" "blk_size h = ALIGN n"
       "blk_status h = STATUS_MAPPED"
    by blast
  obtain h2 where h2: "hdr_at hs (mem s2) (get_block_ptr hs p) = Some h2"
      "blk_size h2 = ALIGN n" "blk_status h2 = STATUS_MAPPED"
    using assms(8,9) m(3,4,5) by (cases "hdr_at hs (mem s2) (get_block_ptr hs p)") auto
  have "blk_size h2 + hs = ?len" using h2(2) assms(2) by simp
  then show ?thesis
    using os_free_mapped[OF assms(6,7) h2(1) assms(1) h2(3)] m(1,2) by auto
qed

theorem unmap_length_is_map_length_witness:
  "(32 :: size_t) \<noteq> 0 \<and> ALIGN 32 = 32 \<and> (200000 :: size_t) \<noteq> 0 \<and>
   \<not> ALIGN 200000 + ALIGN 32 < MAP_THRESHOLD fresh \<and>
   os_malloc 32 fresh 200000 = Some (Inr (536870944, st_m1)) \<and>
   blocks 32 (mem st_m1) (head st_m1) [536870912] \<and>
   get_block_ptr 32 536870944 \<in> set [536870912] \<and>
   (\<exists>len s3. os_log st_m1 = os_log fresh @ [Mmap len] \<and>
      os_free 32 st_m1 536870944 = Some (Inr s3) \<and>
      os_log s3 = os_log st_m1 @ [Munmap (get_block_ptr 32 536870944) len])"
proof -
  have 1: "(32 :: size_t) \<noteq> 0" "ALIGN 32 = 32" "(200000 :: size_t) \<noteq> 0"
    by (simp_all add: ALIGN_def ALIGNMENT_def)
  have 2: "\<not> ALIGN 200000 + ALIGN 32 < MAP_THRESHOLD fresh"
    by (simp add: ALIGN_def ALIGNMENT_def fresh_def)
  have 3: "os_malloc 32 fresh 200000 = Some (Inr (536870944, st_m1))"
    by (simp add: ev st_m1_def)
  have 4: "blocks 32 (mem st_m1) (head st_m1) [536870912]"
    by (simp add: ev st_m1_def)
  have 5: "get_block_ptr 32 536870944 \<in> set [536870912]"
    by (simp add: get_block_ptr_def)
  show ?thesis
    using 1 2 3 4 5 unmap_length_is_map_length [OF 1 2 3 4 5 refl refl] by blast
qed

text \<open>
  The scan of \<^verbatim>\<open>find_best_free_block\<close> is the best fit of the specification over the list
  that the coalesce pass of the code leaves: the free block of smallest payload that is at
  least the request, the earliest among equals, and null when that list has no free block
  large enough.
\<close>

lemma best_fit_over_list_after_pass:
  assumes "blocks hs (mem s) (head s) as" and "hs \<noteq> 0"
  shows "\<exists>best lst1 s1 bs.
           find_best_free_block hs s lst sz = Some (Inr (best, lst1, s1)) \<and>
           coalesce_memory hs s = Some (Inr s1) \<and>
           blocks hs (mem s1) (head s1) bs \<and>
           best = best_fit_spec hs (mem s1) sz bs"
proof -
  obtain m' bs where r: "coalesce_memory hs s = Some (Inr (s\<lparr>mem := m'\<rparr>))"
      "find_best_free_block hs s lst sz =
         Some (Inr (best_fit_spec hs m' sz bs, if bs = [] then lst else last bs, s\<lparr>mem := m'\<rparr>))"
      "blocks hs m' (head s) bs"
    using find_best_free_block_blocks[OF assms] by blast
  show ?thesis
    using r by (intro exI[of _ "best_fit_spec hs m' sz bs"] exI[of _ "if bs = [] then lst else last bs"]
        exI[of _ "s\<lparr>mem := m'\<rparr>"] exI[of _ bs]) simp
qed

text \<open>
  C5. The best-fit search is to run after a full coalesce pass. The pass of the code is not
  full: after a merge it steps to the successor of the merged block, so of three free
  blocks in a row only the first two are merged. After \<^verbatim>\<open>p = allocate(200)\<close>,
  \<^verbatim>\<open>resize(p, 50)\<close>, \<^verbatim>\<open>resize(p, 8)\<close> the list holds the payloads 8 (allocated), 16, 112 and
  130808 (free). The search for 130904 bytes merges 16 and 112 into 160, leaves 160 and
  130808 as free neighbours that are adjacent in memory, and returns null, although the
  two together hold \<open>160 + 32 + 130808 = 131000\<close> bytes; \<^verbatim>\<open>allocate(130904)\<close> then grows the heap
  by 96 bytes.
\<close>

theorem best_fit_misses_fit_after_partial_coalesce:
  "os_malloc 32 fresh 200 = Some (Inr (1048608, st_a1)) \<and>
   os_realloc 32 st_a1 1048608 50 = Some (Inr (1048608, st_r1)) \<and>
   os_realloc 32 st_r1 1048608 8 = Some (Inr (1048608, st_r2)) \<and>
   blocks 32 (mem st_r2) (head st_r2) [1048576, 1048616, 1048664, 1048808] \<and>
   hdr_at 32 (mem st_r2) 1048616 =
     Some \<lparr>blk_size = 16, blk_status = STATUS_FREE, blk_next = 1048664\<rparr> \<and>
   hdr_at 32 (mem st_r2) 1048664 =
     Some \<lparr>blk_size = 112, blk_status = STATUS_FREE, blk_next = 1048808\<rparr> \<and>
   hdr_at 32 (mem st_r2) 1048808 =
     Some \<lparr>blk_size = 130808, blk_status = STATUS_FREE, blk_next = 0\<rparr> \<and>
   find_best_free_block 32 st_r2 (head st_r2) (ALIGN 130904) =
     Some (Inr (0, 1048808, st_r3)) \<and>
   blocks 32 (mem st_r3) (head st_r3) [1048576, 1048616, 1048808] \<and>
   hdr_at 32 (mem st_r3) 1048616 =
     Some \<lparr>blk_size = 160, blk_status = STATUS_FREE, blk_next = 1048808\<rparr> \<and>
   hdr_at 32 (mem st_r3) 1048808 =
     Some \<lparr>blk_size = 130808, blk_status = STATUS_FREE, blk_next = 0\<rparr> \<and>
   1048616 + unat (ALIGN 32) + unat (160 :: size_t) = (1048808 :: addr) \<and>
   ALIGN 130904 \<le> 160 + (130808 + ALIGN 32) \<and>
   os_malloc 32 st_r2 130904 = Some (Inr (1048840, st_r4)) \<and>
   os_log st_r4 = os_log st_r2 @ [Sbrk 96]"
proof -
  note r = st_a1_def st_r1_def st_r2_def st_r3_def st_r4_def
  have 1: "os_malloc 32 fresh 200 = Some (Inr (1048608, st_a1))"
    by (simp add: ev r)
  have 2: "os_realloc 32 st_a1 1048608 50 = Some (Inr (1048608, st_r1))"
    by (simp add: ev r)
  have 3: "os_realloc 32 st_r1 1048608 8 = Some (Inr (1048608, st_r2))"
    by (simp add: ev r)
  have 4: "blocks 32 (mem st_r2) (head st_r2) [1048576, 1048616, 1048664, 1048808]"
    by (simp add: ev r)
  have 5: "hdr_at 32 (mem st_r2) 1048616 =
      Some \<lparr>blk_size = 16, blk_status = STATUS_FREE, blk_next = 1048664\<rparr>"
    by (simp add: ev r)
  have 6: "hdr_at 32 (mem st_r2) 1048664 =
      Some \<lparr>blk_size = 112, blk_status = STATUS_FREE, blk_next = 1048808\<rparr>"
    by (simp add: ev r)
  have 7: "hdr_at 32 (mem st_r2) 1048808 =
      Some \<lparr>blk_size = 130808, blk_status = STATUS_FREE, blk_next = 0\<rparr>"
    by (simp add: ev r)
  have 8: "find_best_free_block 32 st_r2 (head st_r2) (ALIGN 130904) =
      Some (Inr (0, 1048808, st_r3))"
    by (simp add: ev r)
  have 9: "blocks 32 (mem st_r3) (head st_r3) [1048576, 1048616, 1048808]"
    by (simp add: ev r)
  have 10: "hdr_at 32 (mem st_r3) 1048616 =
      Some \<lparr>blk_size = 160, blk_status = STATUS_FREE, blk_next = 1048808\<rparr>"
    by (simp add: ev r)
  have 11: "hdr_at 32 (mem st_r3) 1048808 =
      Some \<lparr>blk_size = 130808, blk_status = STATUS_FREE, blk_next = 0\<rparr>"
    by (simp add: ev r)
  have 12: "1048616 + unat (ALIGN 32) + unat (160 :: size_t) = (1048808 :: addr)"
    by (simp add: ALIGN_def ALIGNMENT_def)
  have 13: "ALIGN 130904 \<le> 160 + (130808 + ALIGN 32)"
    by (simp add: ALIGN_def ALIGNMENT_def)
  have 14: "os_malloc 32 st_r2 130904 = Some (Inr (1048840, st_r4))"
    by (simp add: ev r)
  have 15: "os_log st_r4 = os_log st_r2 @ [Sbrk 96]"
    by (simp add: r)
  show ?thesis
    by (intro conjI 1 2 3 4 5 6 7 8 9 10 11 12 13 14 15)
qed






end
